theory Spec2Isabelle
  imports Complex_Main
begin

section \<open>Record schema\<close>

text \<open>
  The interfaces of the type declarations (\<^verbatim>\<open>Hearing\<close>, \<^verbatim>\<open>CaseStatus\<close>,
  \<^verbatim>\<open>LegalCase\<close>, \<^verbatim>\<open>DiaryData\<close>, \<^verbatim>\<open>View\<close>) as records and datatypes.
  Field names are the source's, except that \<^verbatim>\<open>id\<close> and \<^verbatim>\<open>note\<close> are taken in
  Isabelle: \<^verbatim>\<open>Hearing.id\<close> is \<open>hearing_id\<close>, \<^verbatim>\<open>Hearing.note\<close> is \<open>hearing_note\<close>
  and \<^verbatim>\<open>LegalCase.id\<close> is \<open>case_id\<close>.  A JavaScript string is a \<open>string\<close>;
  \<^verbatim>\<open>string | null\<close> is a \<open>string option\<close>.
\<close>

record Hearing =
  hearing_id :: string
  date :: string
  hearing_note :: string

datatype CaseStatus = ONGOING | DISPOSED | STAYED | APPEALED | DISMISSED

record LegalCase =
  case_id :: string
  title :: string
  referenceNumber :: string
  courtName :: string
  description :: string
  status :: CaseStatus
  nextHearingDate :: string
  history :: "Hearing list"
  createdAt :: string

record DiaryData =
  cases :: "LegalCase list"
  lastBackupDate :: "string option"
  advocateName :: string

datatype View = View_dashboard | View_cases | View_calendar | View_settings

datatype CaseFilter = Filter_all | Filter_ongoing | Filter_week

section \<open>The application state and its handlers (App.tsx)\<close>

text \<open>
  The \<^verbatim>\<open>useState\<close> cells of the \<^verbatim>\<open>App\<close> component that the handlers below
  read or write, together with the browser's \<^verbatim>\<open>localStorage\<close> (a map from keys to
  string values).  A handler is a function from the state before the event to the
  state after it.
\<close>

record AppState =
  data :: DiaryData
  activeView :: View
  searchQuery :: string
  activeFilter :: CaseFilter
  editingCase :: "LegalCase option"
  isFormOpen :: bool
  selectedCaseId :: "string option"
  caseToDelete :: "LegalCase option"
  showPurgeModal :: bool
  pendingImportData :: "DiaryData option"
  localStorage :: "string \<rightharpoonup> string"

text \<open>\<^verbatim>\<open>a || b\<close> on strings: the empty string is the only falsy string.\<close>

definition js_or :: "string \<Rightarrow> string \<Rightarrow> string" where
  "js_or a b = (if a \<noteq> [] then a else b)"

text \<open>\<^verbatim>\<open>Array.prototype.findIndex\<close>: the first index whose element satisfies the
  predicate, \<open>-1\<close> when there is none.\<close>

fun findIndex :: "('a \<Rightarrow> bool) \<Rightarrow> 'a list \<Rightarrow> int" where
  "findIndex P [] = - 1"
| "findIndex P (x # xs) =
     (if P x then 0 else (let i = findIndex P xs in if i < 0 then - 1 else i + 1))"

text \<open>
  The body of the \<^verbatim>\<open>forEach\<close> callback of \<^verbatim>\<open>executeImport\<close>: \<^verbatim>\<open>find\<close> returns the
  first case with the imported id or \<^verbatim>\<open>undefined\<close> (\<open>None\<close>); a case is an object and
  so truthy, hence the negation holds exactly when nothing was found; \<^verbatim>\<open>push\<close> appends.
\<close>

definition executeImport_step :: "LegalCase list \<Rightarrow> LegalCase \<Rightarrow> LegalCase list" where
  "executeImport_step mergedCases importedCase =
     (if find (\<lambda>c. case_id c = case_id importedCase) mergedCases = None
      then mergedCases @ [importedCase]
      else mergedCases)"

text \<open>
  The updater that \<^verbatim>\<open>executeImport\<close> passes to \<^verbatim>\<open>setData\<close>: \<^verbatim>\<open>mergedCases\<close> starts as
  a copy of \<^verbatim>\<open>prev.cases\<close>, the \<^verbatim>\<open>forEach\<close> runs over \<^verbatim>\<open>pendingImportData.cases\<close> from
  left to right, and the result is \<^verbatim>\<open>prev\<close> with \<^verbatim>\<open>cases\<close> and \<^verbatim>\<open>advocateName\<close>
  replaced.  The spread \<^verbatim>\<open>...prev\<close> keeps every other property of \<^verbatim>\<open>prev\<close>, which
  the record update does as well (also for the extension part of the record).
\<close>

definition executeImport_update ::
    "'b DiaryData_scheme \<Rightarrow> 'a DiaryData_scheme \<Rightarrow> 'a DiaryData_scheme" where
  "executeImport_update pending prev =
     (let mergedCases = foldl executeImport_step (cases prev) (cases pending)
      in prev\<lparr>cases := mergedCases,
              advocateName := js_or (advocateName pending) (advocateName prev)\<rparr>)"

definition executeImport :: "AppState \<Rightarrow> AppState" where
  "executeImport st =
     (case pendingImportData st of
        None \<Rightarrow> st
      | Some pending \<Rightarrow>
          st\<lparr>data := executeImport_update pending (data st),
             pendingImportData := None\<rparr>)"

definition executePurge :: "AppState \<Rightarrow> AppState" where
  "executePurge st =
     st\<lparr>data := \<lparr>cases = [], lastBackupDate = None, advocateName = ''Counsel''\<rparr>,
        localStorage := (localStorage st)(''last_backup_prompt_ts'' := None),
        showPurgeModal := False,
        selectedCaseId := None,
        activeView := View_dashboard,
        activeFilter := Filter_all,
        searchQuery := []\<rparr>"

text \<open>
  The updater of \<^verbatim>\<open>addOrUpdateCase\<close>: an index found by \<^verbatim>\<open>findIndex\<close> is within the
  array, so the assignment replaces that element; \<^verbatim>\<open>unshift\<close> puts the case in front.
\<close>

definition addOrUpdateCase_update ::
    "LegalCase \<Rightarrow> 'a DiaryData_scheme \<Rightarrow> 'a DiaryData_scheme" where
  "addOrUpdateCase_update c prev =
     (let existingIdx = findIndex (\<lambda>item. case_id item = case_id c) (cases prev);
          newCases = cases prev
      in prev\<lparr>cases := (if existingIdx \<ge> 0 then newCases[nat existingIdx := c]
                        else c # newCases)\<rparr>)"

definition addOrUpdateCase :: "LegalCase \<Rightarrow> AppState \<Rightarrow> AppState" where
  "addOrUpdateCase c st =
     st\<lparr>data := addOrUpdateCase_update c (data st),
        isFormOpen := False,
        editingCase := None\<rparr>"

definition confirmDelete :: "AppState \<Rightarrow> AppState" where
  "confirmDelete st =
     (case caseToDelete st of
        None \<Rightarrow> st
      | Some target \<Rightarrow>
          (let idToDelete = case_id target
           in st\<lparr>data := (data st)\<lparr>cases := filter (\<lambda>c. case_id c \<noteq> idToDelete) (cases (data st))\<rparr>,
                 selectedCaseId := None,
                 caseToDelete := None\<rparr>))"

text \<open>
  The merge policy in the specification's words, for comparison with the code: the
  result starts as the current cases; each incoming case, in order, is appended if no
  case of the result has its id and skipped otherwise.
\<close>

fun merge_policy :: "LegalCase list \<Rightarrow> LegalCase list \<Rightarrow> LegalCase list" where
  "merge_policy result [] = result"
| "merge_policy result (c # incoming) =
     (if \<exists>x \<in> set result. case_id x = case_id c
      then merge_policy result incoming
      else merge_policy (result @ [c]) incoming)"

section \<open>The case form (App.tsx, CaseForm)\<close>

text \<open>
  The \<^verbatim>\<open>useState\<close> cells of \<^verbatim>\<open>CaseForm\<close> (\<^verbatim>\<open>title\<close>, \<^verbatim>\<open>refNum\<close>, \<^verbatim>\<open>court\<close>,
  \<^verbatim>\<open>desc\<close>, \<^verbatim>\<open>status\<close>, \<^verbatim>\<open>nextDate\<close>, \<^verbatim>\<open>hearingNote\<close>), prefixed with \<open>form_\<close>.
\<close>

record CaseForm =
  form_title :: string
  form_refNum :: string
  form_court :: string
  form_desc :: string
  form_status :: CaseStatus
  form_nextDate :: string
  form_hearingNote :: string

text \<open>\<^verbatim>\<open>formatDate\<close>; the locale formatting of the platform is the parameter
  \<open>toLocaleDateString\<close>.\<close>

definition formatDate :: "(string \<Rightarrow> string) \<Rightarrow> string \<Rightarrow> string" where
  "formatDate toLocaleDateString dateStr =
     (if dateStr = [] then ''TBD'' else toLocaleDateString dateStr)"

text \<open>
  The object that \<^verbatim>\<open>handleSubmit\<close> passes to \<^verbatim>\<open>onSave\<close>, or \<open>None\<close> when it alerts
  and returns without saving.  \<open>randomUUID k\<close> is what the \<open>k\<close>-th call of
  \<^verbatim>\<open>crypto.randomUUID()\<close> in this submission returns (the call for the case id is made
  only when the id of \<^verbatim>\<open>initialData\<close> is missing or empty), and \<open>nowISO\<close> is
  \<^verbatim>\<open>new Date().toISOString()\<close>.
\<close>

definition handleSubmit_case ::
    "(string \<Rightarrow> string) \<Rightarrow> (nat \<Rightarrow> string) \<Rightarrow> string \<Rightarrow>
     LegalCase option \<Rightarrow> CaseForm \<Rightarrow> LegalCase option" where
  "handleSubmit_case toLocaleDateString randomUUID nowISO initialData form =
     (if form_title form = [] \<or> form_court form = [] then None
      else
        (case initialData of
           None \<Rightarrow>
             Some \<lparr>case_id = randomUUID 0,
                   title = form_title form,
                   referenceNumber = form_refNum form,
                   courtName = form_court form,
                   description = form_desc form,
                   status = form_status form,
                   nextHearingDate = form_nextDate form,
                   history = [],
                   createdAt = nowISO\<rparr>
         | Some initial \<Rightarrow>
             (let rescheduled =
                    (nextHearingDate initial \<noteq> [] \<and> form_nextDate form \<noteq> nextHearingDate initial);
                  history' =
                    (if rescheduled
                     then history initial @
                       [\<lparr>hearing_id = randomUUID 0,
                         date = nextHearingDate initial,
                         hearing_note =
                           js_or (form_hearingNote form)
                             (''Hearing rescheduled to '' @
                                formatDate toLocaleDateString (form_nextDate form))\<rparr>]
                     else history initial);
                  calls = (if rescheduled then 1 else 0)
              in Some \<lparr>case_id = js_or (case_id initial) (randomUUID calls),
                       title = form_title form,
                       referenceNumber = form_refNum form,
                       courtName = form_court form,
                       description = form_desc form,
                       status = form_status form,
                       nextHearingDate = form_nextDate form,
                       history = history',
                       createdAt = js_or (createdAt initial) nowISO\<rparr>)))"

text \<open>\<^verbatim>\<open>handleSubmit\<close> on a state: nothing changes when the form is rejected,
  otherwise \<^verbatim>\<open>onSave\<close> runs on the new case.  \<^verbatim>\<open>App\<close> renders the form with
  \<^verbatim>\<open>initialData = editingCase\<close> and \<^verbatim>\<open>onSave = addOrUpdateCase\<close>.\<close>

definition handleSubmit ::
    "(string \<Rightarrow> string) \<Rightarrow> (nat \<Rightarrow> string) \<Rightarrow> string \<Rightarrow>
     LegalCase option \<Rightarrow> (LegalCase \<Rightarrow> 's \<Rightarrow> 's) \<Rightarrow> CaseForm \<Rightarrow> 's \<Rightarrow> 's" where
  "handleSubmit toLocaleDateString randomUUID nowISO initialData onSave form st =
     (case handleSubmit_case toLocaleDateString randomUUID nowISO initialData form of
        None \<Rightarrow> st
      | Some c \<Rightarrow> onSave c st)"

section \<open>JavaScript values read from JSON\<close>

text \<open>
  What \<^verbatim>\<open>JSON.parse\<close> can return.  A number is a finite value or an infinity
  (\<^verbatim>\<open>JSON.parse("1e999")\<close>); an object is the list of its properties in insertion
  order, read with \<open>map_of\<close>.  \<^verbatim>\<open>JSON.parse\<close> and \<^verbatim>\<open>JSON.stringify\<close> belong to the
  platform and are parameters of the functions below: \<open>JSON_parse s\<close> is \<open>Inl e\<close> when
  the call throws, and \<open>JSON_stringify n v\<close> is the text for indentation \<open>n\<close>
  (\<open>0\<close> for the call without an indentation argument).
\<close>

datatype js_number = Finite rat | PlusInfinity | MinusInfinity

datatype json =
    JNull
  | JBool bool
  | JNum js_number
  | JStr string
  | JArr "json list"
  | JObj "(string \<times> json) list"

datatype js_error = SyntaxError | TypeError

fun truthy :: "json \<Rightarrow> bool" where
  "truthy JNull = False"
| "truthy (JBool b) = b"
| "truthy (JNum n) = (n \<noteq> Finite 0)"
| "truthy (JStr s) = (s \<noteq> [])"
| "truthy (JArr xs) = True"
| "truthy (JObj ps) = True"

text \<open>The property read \<^verbatim>\<open>data.cases\<close>: a \<^verbatim>\<open>TypeError\<close> on \<^verbatim>\<open>null\<close>, the property of
  an object if it has one, and \<^verbatim>\<open>undefined\<close> (\<open>None\<close>) otherwise: no boolean, number,
  string or array that comes out of \<^verbatim>\<open>JSON.parse\<close> has a property of that name.\<close>

fun prop_cases :: "json \<Rightarrow> js_error + json option" where
  "prop_cases JNull = Inl TypeError"
| "prop_cases (JObj ps) = Inr (map_of ps ''cases'')"
| "prop_cases v = Inr None"

fun isArray :: "json option \<Rightarrow> bool" where
  "isArray (Some (JArr xs)) = True"
| "isArray v = False"

subsection \<open>Values of the interfaces as JavaScript values\<close>

text \<open>The object that a value of an interface is at run time, with its properties in
  the order in which the object literals of the source list them.\<close>

definition json_of_Hearing :: "Hearing \<Rightarrow> json" where
  "json_of_Hearing h =
     JObj [(''id'', JStr (hearing_id h)),
           (''date'', JStr (date h)),
           (''note'', JStr (hearing_note h))]"

fun string_of_CaseStatus :: "CaseStatus \<Rightarrow> string" where
  "string_of_CaseStatus ONGOING = ''Ongoing''"
| "string_of_CaseStatus DISPOSED = ''Disposed''"
| "string_of_CaseStatus STAYED = ''Stayed''"
| "string_of_CaseStatus APPEALED = ''Appealed''"
| "string_of_CaseStatus DISMISSED = ''Dismissed''"

definition json_of_LegalCase :: "LegalCase \<Rightarrow> json" where
  "json_of_LegalCase c =
     JObj [(''id'', JStr (case_id c)),
           (''title'', JStr (title c)),
           (''referenceNumber'', JStr (referenceNumber c)),
           (''courtName'', JStr (courtName c)),
           (''description'', JStr (description c)),
           (''status'', JStr (string_of_CaseStatus (status c))),
           (''nextHearingDate'', JStr (nextHearingDate c)),
           (''history'', JArr (map json_of_Hearing (history c))),
           (''createdAt'', JStr (createdAt c))]"

definition json_of_DiaryData :: "DiaryData \<Rightarrow> json" where
  "json_of_DiaryData d =
     JObj [(''cases'', JArr (map json_of_LegalCase (cases d))),
           (''lastBackupDate'', (case lastBackupDate d of None \<Rightarrow> JNull | Some s \<Rightarrow> JStr s)),
           (''advocateName'', JStr (advocateName d))]"

text \<open>Reading a JavaScript value at an interface: defined exactly on the values that
  have every declared property at its declared type.\<close>

fun the_string :: "json option \<Rightarrow> string option" where
  "the_string (Some (JStr s)) = Some s"
| "the_string v = None"

fun the_array :: "json option \<Rightarrow> json list option" where
  "the_array (Some (JArr xs)) = Some xs"
| "the_array v = None"

fun the_nullable_string :: "json option \<Rightarrow> string option option" where
  "the_nullable_string (Some JNull) = Some None"
| "the_nullable_string (Some (JStr s)) = Some (Some s)"
| "the_nullable_string v = None"

definition CaseStatus_of_string :: "string \<Rightarrow> CaseStatus option" where
  "CaseStatus_of_string s =
     (if s = ''Ongoing'' then Some ONGOING
      else if s = ''Disposed'' then Some DISPOSED
      else if s = ''Stayed'' then Some STAYED
      else if s = ''Appealed'' then Some APPEALED
      else if s = ''Dismissed'' then Some DISMISSED
      else None)"

fun Hearing_of_json :: "json \<Rightarrow> Hearing option" where
  "Hearing_of_json (JObj ps) =
     Option.bind (the_string (map_of ps ''id'')) (\<lambda>i.
     Option.bind (the_string (map_of ps ''date'')) (\<lambda>d.
     Option.bind (the_string (map_of ps ''note'')) (\<lambda>n.
       Some \<lparr>hearing_id = i, date = d, hearing_note = n\<rparr>)))"
| "Hearing_of_json v = None"

fun LegalCase_of_json :: "json \<Rightarrow> LegalCase option" where
  "LegalCase_of_json (JObj ps) =
     Option.bind (the_string (map_of ps ''id'')) (\<lambda>i.
     Option.bind (the_string (map_of ps ''title'')) (\<lambda>t.
     Option.bind (the_string (map_of ps ''referenceNumber'')) (\<lambda>r.
     Option.bind (the_string (map_of ps ''courtName'')) (\<lambda>c.
     Option.bind (the_string (map_of ps ''description'')) (\<lambda>d.
     Option.bind (Option.bind (the_string (map_of ps ''status'')) CaseStatus_of_string) (\<lambda>s.
     Option.bind (the_string (map_of ps ''nextHearingDate'')) (\<lambda>n.
     Option.bind (Option.bind (the_array (map_of ps ''history'')) (\<lambda>hs. those (map Hearing_of_json hs))) (\<lambda>h.
     Option.bind (the_string (map_of ps ''createdAt'')) (\<lambda>a.
       Some \<lparr>case_id = i, title = t, referenceNumber = r, courtName = c,
             description = d, status = s, nextHearingDate = n, history = h,
             createdAt = a\<rparr>)))))))))"
| "LegalCase_of_json v = None"

fun DiaryData_of_json :: "json \<Rightarrow> DiaryData option" where
  "DiaryData_of_json (JObj ps) =
     Option.bind (Option.bind (the_array (map_of ps ''cases'')) (\<lambda>cs. those (map LegalCase_of_json cs))) (\<lambda>cs.
     Option.bind (the_nullable_string (map_of ps ''lastBackupDate'')) (\<lambda>b.
     Option.bind (the_string (map_of ps ''advocateName'')) (\<lambda>a.
       Some \<lparr>cases = cs, lastBackupDate = b, advocateName = a\<rparr>)))"
| "DiaryData_of_json v = None"

section \<open>Storage, backup codec and reminder gate (utils/storage.ts)\<close>

definition STORAGE_KEY :: string where
  "STORAGE_KEY = ''advocate_diary_data''"

definition BACKUP_REMINDER_KEY :: string where
  "BACKUP_REMINDER_KEY = ''last_backup_prompt_ts''"

text \<open>\<^verbatim>\<open>localStorage\<close> is a map from keys to strings: \<^verbatim>\<open>getItem\<close> of a key that is not
  set returns \<^verbatim>\<open>null\<close> (\<open>None\<close>), \<^verbatim>\<open>setItem\<close> overwrites.\<close>

definition saveDiaryData ::
    "(nat \<Rightarrow> json \<Rightarrow> string) \<Rightarrow> DiaryData \<Rightarrow> (string \<rightharpoonup> string) \<Rightarrow> (string \<rightharpoonup> string)" where
  "saveDiaryData JSON_stringify d ls = ls(STORAGE_KEY \<mapsto> JSON_stringify 0 (json_of_DiaryData d))"

text \<open>
  \<^verbatim>\<open>loadDiaryData\<close>.  The result is \<open>Inr\<close> of the value returned or \<open>Inl\<close> of an
  exception that leaves the function.  \<^verbatim>\<open>!stored\<close> holds for \<^verbatim>\<open>null\<close> and for the empty
  string.  What \<^verbatim>\<open>JSON.parse\<close> returns is returned as it is, without a check against
  the interface, so the result is a JavaScript value; the \<^verbatim>\<open>catch\<close> clause also writes
  to the console, which is not part of the model.
\<close>

definition loadDiaryData ::
    "(string \<Rightarrow> js_error + json) \<Rightarrow> (string \<rightharpoonup> string) \<Rightarrow> js_error + json" where
  "loadDiaryData JSON_parse ls =
     (case ls STORAGE_KEY of
        None \<Rightarrow>
          Inr (json_of_DiaryData \<lparr>cases = [], lastBackupDate = None, advocateName = ''Counsel''\<rparr>)
      | Some stored \<Rightarrow>
          if stored = [] then
            Inr (json_of_DiaryData \<lparr>cases = [], lastBackupDate = None, advocateName = ''Counsel''\<rparr>)
          else
            (case JSON_parse stored of
               Inr v \<Rightarrow> Inr v
             | Inl e \<Rightarrow>
                 Inr (json_of_DiaryData
                        \<lparr>cases = [], lastBackupDate = None, advocateName = ''Counsel''\<rparr>)))"

text \<open>
  \<^verbatim>\<open>exportToJson\<close>: the file offered for download (its name and its text), the
  \<^verbatim>\<open>localStorage\<close> after \<^verbatim>\<open>saveDiaryData(newData)\<close>, and the returned \<^verbatim>\<open>newData\<close>.
  \<open>isoName\<close> and \<open>isoStamp\<close> are the two readings of \<^verbatim>\<open>new Date().toISOString()\<close>;
  \<^verbatim>\<open>split('T')[0]\<close> is the text before the first \<^verbatim>\<open>T\<close>.
\<close>

record Download =
  download :: string
  blob :: string

definition exportToJson ::
    "(nat \<Rightarrow> json \<Rightarrow> string) \<Rightarrow> string \<Rightarrow> string \<Rightarrow> DiaryData \<Rightarrow> (string \<rightharpoonup> string) \<Rightarrow>
     Download \<times> (string \<rightharpoonup> string) \<times> DiaryData" where
  "exportToJson JSON_stringify isoName isoStamp d ls =
     (let a = \<lparr>download = ''diary_backup_'' @ takeWhile (\<lambda>c. c \<noteq> CHR ''T'') isoName @ ''.json'',
                blob = JSON_stringify 2 (json_of_DiaryData d)\<rparr>;
          newData = d\<lparr>lastBackupDate := Some isoStamp\<rparr>
      in (a, saveDiaryData JSON_stringify newData ls, newData))"

text \<open>
  \<^verbatim>\<open>importFromJson\<close>: first the \<^verbatim>\<open>try\<close> block, where \<^verbatim>\<open>JSON.parse\<close> or the property
  read may throw, then the function with its \<^verbatim>\<open>catch\<close> clause, which returns \<^verbatim>\<open>null\<close>
  (\<open>None\<close>).  \<^verbatim>\<open>data && e\<close> does not evaluate \<^verbatim>\<open>e\<close> when \<^verbatim>\<open>data\<close> is falsy.
\<close>

definition importFromJson_try ::
    "(string \<Rightarrow> js_error + json) \<Rightarrow> string \<Rightarrow> js_error + json option" where
  "importFromJson_try JSON_parse jsonStr =
     (case JSON_parse jsonStr of
        Inl e \<Rightarrow> Inl e
      | Inr d \<Rightarrow>
          if truthy d then
            (case prop_cases d of
               Inl e \<Rightarrow> Inl e
             | Inr v \<Rightarrow> if isArray v then Inr (Some d) else Inr None)
          else Inr None)"

definition importFromJson ::
    "(string \<Rightarrow> js_error + json) \<Rightarrow> string \<Rightarrow> js_error + json option" where
  "importFromJson JSON_parse jsonStr =
     (case importFromJson_try JSON_parse jsonStr of
        Inl e \<Rightarrow> Inr None
      | Inr r \<Rightarrow> Inr r)"

subsection \<open>The reminder gate\<close>

text \<open>
  \<^verbatim>\<open>Date.now()\<close> is an integer number of milliseconds, an \<open>int\<close> here.  Both readings
  and the constant are integers that a double holds exactly, and rounding their
  difference is monotone and fixes \<open>86400000\<close>, so the comparison on doubles is the
  comparison on integers.

  \<open>toString_int\<close> is \<^verbatim>\<open>toString()\<close> of such a number (decimal digits, with a minus
  sign for a negative one); \<open>parseInt10\<close> is \<^verbatim>\<open>parseInt(s, 10)\<close>: leading white space
  is skipped, one sign is read, the longest run of decimal digits is the value, and
  the result is \<^verbatim>\<open>NaN\<close> (\<open>None\<close>) when there is no digit.
\<close>

definition digit_char :: "nat \<Rightarrow> char" where
  "digit_char d = char_of (48 + d)"

fun digits :: "nat \<Rightarrow> string" where
  "digits n = (if n < 10 then [digit_char n] else digits (n div 10) @ [digit_char (n mod 10)])"

declare digits.simps [simp del]

definition toString_int :: "int \<Rightarrow> string" where
  "toString_int n = (if n < 0 then CHR ''-'' # digits (nat (- n)) else digits (nat n))"

definition is_space :: "char \<Rightarrow> bool" where
  "is_space c = ((of_char c :: nat) \<in> {9, 10, 11, 12, 13, 32})"

definition is_digit :: "char \<Rightarrow> bool" where
  "is_digit c = (48 \<le> (of_char c :: nat) \<and> (of_char c :: nat) \<le> 57)"

definition digit_val :: "char \<Rightarrow> nat" where
  "digit_val c = of_char c - 48"

definition parseInt10 :: "string \<Rightarrow> int option" where
  "parseInt10 inputString =
     (let S = dropWhile is_space inputString;
          sign = (case S of [] \<Rightarrow> 1 | c # r \<Rightarrow> if c = CHR ''-'' then - 1 else (1 :: int));
          S' = (case S of [] \<Rightarrow> S | c # r \<Rightarrow> if c = CHR ''+'' \<or> c = CHR ''-'' then r else S);
          Z = takeWhile is_digit S'
      in if Z = [] then None
         else Some (sign * int (foldl (\<lambda>a c. 10 * a + digit_val c) 0 Z)))"

text \<open>\<^verbatim>\<open>shouldShowBackupReminder\<close> at the time \<open>now\<close>; every comparison with
  \<^verbatim>\<open>NaN\<close> is false.\<close>

definition shouldShowBackupReminder :: "int \<Rightarrow> (string \<rightharpoonup> string) \<Rightarrow> bool" where
  "shouldShowBackupReminder now ls =
     (case ls BACKUP_REMINDER_KEY of
        None \<Rightarrow> True
      | Some lastPrompt \<Rightarrow>
          if lastPrompt = [] then True
          else
            (case parseInt10 lastPrompt of
               None \<Rightarrow> False
             | Some lastPromptTs \<Rightarrow>
                 (let twentyFourHours = 24 * 60 * 60 * 1000
                  in now - lastPromptTs > twentyFourHours)))"

definition markBackupReminderAsShown :: "int \<Rightarrow> (string \<rightharpoonup> string) \<Rightarrow> (string \<rightharpoonup> string)" where
  "markBackupReminderAsShown now ls = ls(BACKUP_REMINDER_KEY \<mapsto> toString_int now)"

section \<open>The JSON text format of the platform\<close>

text \<open>
  \<^verbatim>\<open>JSON.stringify\<close> and \<^verbatim>\<open>JSON.parse\<close> are built into the platform.  For the
  statements that depend on the text they write and read, they are written out here after
  ECMA-262: \<^verbatim>\<open>QuoteJSONString\<close>, \<^verbatim>\<open>SerializeJSONProperty\<close> with its array and object cases,
  and a parser for the JSON grammar.  A character of a \<open>string\<close> is one byte of the UTF-8
  text.  The text of a finite number and the value of a number literal are conversions of
  floating point numbers and stay parameters (\<open>nt\<close> and \<open>nv\<close>).
\<close>

text \<open>\<^verbatim>\<open>QuoteJSONString\<close>: the quote, the backslash and the control characters are
  escaped, the named ones by their letter and the others as a backslash, \<^verbatim>\<open>u\<close> and four lower case
  hexadecimal digits; every other character is copied.\<close>

definition hex_char :: "nat \<Rightarrow> char" where
  "hex_char d = ''0123456789abcdef'' ! d"

definition UnicodeEscape :: "nat \<Rightarrow> string" where
  "UnicodeEscape n =
     [CHR 0x5C, CHR ''u'', hex_char (n div 4096 mod 16), hex_char (n div 256 mod 16),
      hex_char (n div 16 mod 16), hex_char (n mod 16)]"

definition quote_char :: "char \<Rightarrow> string" where
  "quote_char c =
     (if c = CHR 0x08 then [CHR 0x5C, CHR ''b'']
      else if c = CHR 0x09 then [CHR 0x5C, CHR ''t'']
      else if c = CHR 0x0A then [CHR 0x5C, CHR ''n'']
      else if c = CHR 0x0C then [CHR 0x5C, CHR ''f'']
      else if c = CHR 0x0D then [CHR 0x5C, CHR ''r'']
      else if c = CHR 0x22 then [CHR 0x5C, CHR 0x22]
      else if c = CHR 0x5C then [CHR 0x5C, CHR 0x5C]
      else if (of_char c :: nat) < 32 then UnicodeEscape (of_char c)
      else [c])"

definition QuoteJSONString :: "string \<Rightarrow> string" where
  "QuoteJSONString s = CHR 0x22 # concat (map quote_char s) @ [CHR 0x22]"

text \<open>
  \<^verbatim>\<open>SerializeJSONProperty\<close> for \<^verbatim>\<open>JSON.stringify(v, null, space)\<close> with a number
  \<open>space\<close>: the gap is that many spaces, ten at most, and \<open>indent\<close> is the number of spaces
  of the current indentation.  With an empty gap nothing is put between the tokens; otherwise
  every element or member starts on a line of its own, indented by one gap more than its
  parent, a space follows the colon of a member, and the closing bracket is on a line of its
  own.  An empty array is \<^verbatim>\<open>[]\<close> and an empty object \<^verbatim>\<open>{}\<close>; a number that is not finite
  is written \<^verbatim>\<open>null\<close>.  The properties of an object are written in the order of the list
  (the platform lists properties whose names are array indices first; the objects of this
  program have none).
\<close>

fun join :: "string \<Rightarrow> string list \<Rightarrow> string" where
  "join sep [] = []"
| "join sep [x] = x"
| "join sep (x # y # ys) = x @ sep @ join sep (y # ys)"

definition newline_indent :: "nat \<Rightarrow> nat \<Rightarrow> string" where
  "newline_indent gap indent = (if gap = 0 then [] else CHR 0x0A # replicate indent (CHR 0x20))"

fun SerializeJSONProperty :: "(rat \<Rightarrow> string) \<Rightarrow> nat \<Rightarrow> nat \<Rightarrow> json \<Rightarrow> string" where
  "SerializeJSONProperty nt gap indent JNull = ''null''"
| "SerializeJSONProperty nt gap indent (JBool b) = (if b then ''true'' else ''false'')"
| "SerializeJSONProperty nt gap indent (JNum x) =
     (case x of Finite q \<Rightarrow> nt q | PlusInfinity \<Rightarrow> ''null'' | MinusInfinity \<Rightarrow> ''null'')"
| "SerializeJSONProperty nt gap indent (JStr s) = QuoteJSONString s"
| "SerializeJSONProperty nt gap indent (JArr xs) =
     (if xs = [] then ''[]''
      else ''['' @ newline_indent gap (indent + gap)
        @ join ('','' @ newline_indent gap (indent + gap))
            (map (SerializeJSONProperty nt gap (indent + gap)) xs)
        @ newline_indent gap indent @ '']'')"
| "SerializeJSONProperty nt gap indent (JObj ps) =
     (if ps = [] then ''{}''
      else ''{'' @ newline_indent gap (indent + gap)
        @ join ('','' @ newline_indent gap (indent + gap))
            (map (\<lambda>p. QuoteJSONString (fst p) @ '':'' @ (if gap = 0 then [] else '' '')
                        @ SerializeJSONProperty nt gap (indent + gap) (snd p)) ps)
        @ newline_indent gap indent @ ''}'')"

definition JSON_stringify_text :: "(rat \<Rightarrow> string) \<Rightarrow> nat \<Rightarrow> json \<Rightarrow> string" where
  "JSON_stringify_text nt space v = SerializeJSONProperty nt (min 10 space) 0 v"

text \<open>
  Reading a string after its opening quote: up to the closing quote, with the escapes of
  the grammar; a control character or the end of the text inside a string is an error
  (\<open>None\<close>).  The code unit of a \<^verbatim>\<open>u\<close> escape is put into the string in UTF-8.
\<close>

definition is_ws :: "char \<Rightarrow> bool" where
  "is_ws c = (c = CHR 0x20 \<or> c = CHR 0x09 \<or> c = CHR 0x0A \<or> c = CHR 0x0D)"

definition hex_val :: "char \<Rightarrow> nat option" where
  "hex_val c =
     (let n = (of_char c :: nat)
      in if 48 \<le> n \<and> n \<le> 57 then Some (n - 48)
         else if 97 \<le> n \<and> n \<le> 102 then Some (n - 87)
         else if 65 \<le> n \<and> n \<le> 70 then Some (n - 55)
         else None)"

definition utf8 :: "nat \<Rightarrow> string" where
  "utf8 n =
     (if n < 128 then [char_of n]
      else if n < 2048 then [char_of (192 + n div 64), char_of (128 + n mod 64)]
      else [char_of (224 + n div 4096), char_of (128 + n div 64 mod 64), char_of (128 + n mod 64)])"

definition simple_escape :: "char \<Rightarrow> char option" where
  "simple_escape e =
     (if e = CHR 0x22 then Some (CHR 0x22)
      else if e = CHR 0x5C then Some (CHR 0x5C)
      else if e = CHR ''/'' then Some (CHR ''/'')
      else if e = CHR ''b'' then Some (CHR 0x08)
      else if e = CHR ''f'' then Some (CHR 0x0C)
      else if e = CHR ''n'' then Some (CHR 0x0A)
      else if e = CHR ''r'' then Some (CHR 0x0D)
      else if e = CHR ''t'' then Some (CHR 0x09)
      else None)"

fun parse_chars :: "string \<Rightarrow> (string \<times> string) option" where
  "parse_chars [] = None"
| "parse_chars (c # cs) =
     (if c = CHR 0x22 then Some ([], cs)
      else if c = CHR 0x5C then
        (case cs of
           [] \<Rightarrow> None
         | e # r \<Rightarrow>
             if e = CHR ''u'' then
               (case r of
                  h1 # h2 # h3 # h4 # r' \<Rightarrow>
                    (case (hex_val h1, hex_val h2, hex_val h3, hex_val h4) of
                       (Some a, Some b, Some c', Some d) \<Rightarrow>
                         map_option (\<lambda>(s, t). (utf8 (((a * 16 + b) * 16 + c') * 16 + d) @ s, t))
                           (parse_chars r')
                     | _ \<Rightarrow> None)
                | _ \<Rightarrow> None)
             else
               (case simple_escape e of
                  None \<Rightarrow> None
                | Some x \<Rightarrow> map_option (\<lambda>(s, t). (x # s, t)) (parse_chars r)))
      else if (of_char c :: nat) < 32 then None
      else map_option (\<lambda>(s, t). (c # s, t)) (parse_chars cs))"

text \<open>
  A number literal of the grammar: an optional minus sign, \<^verbatim>\<open>0\<close> or a run of digits that
  does not start with \<^verbatim>\<open>0\<close>, an optional fraction, an optional exponent.  The result is
  the literal and the text after it.
\<close>

definition scan_digits :: "string \<Rightarrow> (string \<times> string) option" where
  "scan_digits s =
     (if takeWhile is_digit s = [] then None
      else Some (takeWhile is_digit s, dropWhile is_digit s))"

definition scan_number :: "string \<Rightarrow> (string \<times> string) option" where
  "scan_number s =
     (let (sign, s1) =
            (case s of [] \<Rightarrow> ([], s) | c # r \<Rightarrow> if c = CHR ''-'' then ([c], r) else ([], s))
      in case s1 of
           [] \<Rightarrow> None
         | d # r1 \<Rightarrow>
             (case (if d = CHR ''0'' then Some ([d], r1) else scan_digits s1) of
                None \<Rightarrow> None
              | Some (ip, s2) \<Rightarrow>
                  (case (case s2 of
                           [] \<Rightarrow> Some ([], s2)
                         | p # r2 \<Rightarrow>
                             if p = CHR ''.'' then
                               map_option (\<lambda>(ds, t). (p # ds, t)) (scan_digits r2)
                             else Some ([], s2)) of
                     None \<Rightarrow> None
                   | Some (fp, s3) \<Rightarrow>
                       (case (case s3 of
                                [] \<Rightarrow> Some ([], s3)
                              | e # r3 \<Rightarrow>
                                  if e = CHR ''e'' \<or> e = CHR ''E'' then
                                    (case r3 of
                                       [] \<Rightarrow> None
                                     | g # r4 \<Rightarrow>
                                         if g = CHR ''+'' \<or> g = CHR ''-'' then
                                           map_option (\<lambda>(ds, t). (e # g # ds, t)) (scan_digits r4)
                                         else map_option (\<lambda>(ds, t). (e # ds, t)) (scan_digits r3))
                                  else Some ([], s3)) of
                          None \<Rightarrow> None
                        | Some (ep, s4) \<Rightarrow> Some (sign @ ip @ fp @ ep, s4)))))"

text \<open>
  Defining a property on the object under construction: a name that is already there keeps
  its place and takes the new value, so of two members with one name the later wins.
\<close>

definition set_property :: "(string \<times> json) list \<Rightarrow> string \<times> json \<Rightarrow> (string \<times> json) list" where
  "set_property ps kv =
     (if fst kv \<in> fst ` set ps
      then map (\<lambda>p. if fst p = fst kv then kv else p) ps
      else ps @ [kv])"

text \<open>
  The parser, by recursive descent: a value, the elements of an array after its opening
  bracket, the members of an object after its opening brace; each returns what it has read
  and the text after it.  White space (space, tab, line feed, carriage return) is skipped
  before every token.  The first argument after \<open>nv\<close> bounds the depth of the recursion;
  \<open>JSON_parse_text\<close> starts it at more than the length of the text, and every nested call
  is made after at least one character has been read.  \<open>JSON_parse_text\<close> is
  \<^verbatim>\<open>JSON.parse(s)\<close>: \<open>Inl SyntaxError\<close> when the text is not one JSON value with at most
  white space around it.
\<close>

fun parse_value :: "(string \<Rightarrow> js_number) \<Rightarrow> nat \<Rightarrow> string \<Rightarrow> (json \<times> string) option"
  and parse_elements :: "(string \<Rightarrow> js_number) \<Rightarrow> nat \<Rightarrow> string \<Rightarrow> (json list \<times> string) option"
  and parse_members ::
    "(string \<Rightarrow> js_number) \<Rightarrow> nat \<Rightarrow> string \<Rightarrow> ((string \<times> json) list \<times> string) option"
where
  "parse_value nv 0 s = None"
| "parse_value nv (Suc n) s =
     (case dropWhile is_ws s of
        [] \<Rightarrow> None
      | c # r \<Rightarrow>
          if c = CHR ''['' then
            (case dropWhile is_ws r of
               [] \<Rightarrow> None
             | c' # r' \<Rightarrow>
                 if c' = CHR '']'' then Some (JArr [], r')
                 else map_option (\<lambda>(xs, t). (JArr xs, t)) (parse_elements nv n r))
          else if c = CHR ''{'' then
            (case dropWhile is_ws r of
               [] \<Rightarrow> None
             | c' # r' \<Rightarrow>
                 if c' = CHR ''}'' then Some (JObj [], r')
                 else map_option (\<lambda>(ms, t). (JObj (foldl set_property [] ms), t))
                        (parse_members nv n r))
          else if c = CHR 0x22 then map_option (\<lambda>(x, t). (JStr x, t)) (parse_chars r)
          else if take 4 (c # r) = ''null'' then Some (JNull, drop 4 (c # r))
          else if take 4 (c # r) = ''true'' then Some (JBool True, drop 4 (c # r))
          else if take 5 (c # r) = ''false'' then Some (JBool False, drop 5 (c # r))
          else map_option (\<lambda>(x, t). (JNum (nv x), t)) (scan_number (c # r)))"
| "parse_elements nv 0 s = None"
| "parse_elements nv (Suc n) s =
     (case parse_value nv n s of
        None \<Rightarrow> None
      | Some (v, r) \<Rightarrow>
          (case dropWhile is_ws r of
             [] \<Rightarrow> None
           | c # r' \<Rightarrow>
               if c = CHR '','' then map_option (\<lambda>(xs, t). (v # xs, t)) (parse_elements nv n r')
               else if c = CHR '']'' then Some ([v], r')
               else None))"
| "parse_members nv 0 s = None"
| "parse_members nv (Suc n) s =
     (case dropWhile is_ws s of
        [] \<Rightarrow> None
      | q # r \<Rightarrow>
          if q = CHR 0x22 then
            (case parse_chars r of
               None \<Rightarrow> None
             | Some (k, r1) \<Rightarrow>
                 (case dropWhile is_ws r1 of
                    [] \<Rightarrow> None
                  | c # r2 \<Rightarrow>
                      if c = CHR '':'' then
                        (case parse_value nv n r2 of
                           None \<Rightarrow> None
                         | Some (v, r3) \<Rightarrow>
                             (case dropWhile is_ws r3 of
                                [] \<Rightarrow> None
                              | c' # r4 \<Rightarrow>
                                  if c' = CHR '','' then
                                    map_option (\<lambda>(ms, t). ((k, v) # ms, t)) (parse_members nv n r4)
                                  else if c' = CHR ''}'' then Some ([(k, v)], r4)
                                  else None))
                      else None))
          else None)"

definition JSON_parse_text :: "(string \<Rightarrow> js_number) \<Rightarrow> string \<Rightarrow> js_error + json" where
  "JSON_parse_text nv s =
     (case parse_value nv (Suc (length s)) s of
        None \<Rightarrow> Inl SyntaxError
      | Some (v, r) \<Rightarrow> if dropWhile is_ws r = [] then Inr v else Inl SyntaxError)"

text \<open>The values that \<open>SerializeJSONProperty\<close> writes without the number conversion and
  that are read back as they are: no numbers, and no object with two properties of one
  name.\<close>

fun plain :: "json \<Rightarrow> bool" where
  "plain JNull = True"
| "plain (JBool b) = True"
| "plain (JNum x) = False"
| "plain (JStr s) = True"
| "plain (JArr xs) = list_all plain xs"
| "plain (JObj ps) = (distinct (map fst ps) \<and> list_all (\<lambda>p. plain (snd p)) ps)"

section \<open>Example data\<close>

text \<open>Concrete values at which the theorems below are instantiated.\<close>

definition example_case :: "string \<Rightarrow> string \<Rightarrow> LegalCase" where
  "example_case i t =
     \<lparr>case_id = i, title = t, referenceNumber = ''2024/APP/101'',
      courtName = ''High Court'', description = [], status = ONGOING,
      nextHearingDate = ''2024-01-10'', history = [],
      createdAt = ''2024-01-01T09:00:00.000Z''\<rparr>"

definition example_data :: "LegalCase list \<Rightarrow> string \<Rightarrow> DiaryData" where
  "example_data cs name = \<lparr>cases = cs, lastBackupDate = None, advocateName = name\<rparr>"

definition example_state :: "DiaryData \<Rightarrow> DiaryData option \<Rightarrow> LegalCase option \<Rightarrow> AppState" where
  "example_state d pending target =
     \<lparr>data = d, activeView = View_settings, searchQuery = [], activeFilter = Filter_all,
      editingCase = None, isFormOpen = False, selectedCaseId = None,
      caseToDelete = target, showPurgeModal = False, pendingImportData = pending,
      localStorage = Map.empty\<rparr>"

definition example_form :: CaseForm where
  "example_form =
     \<lparr>form_title = ''State vs John Doe'', form_refNum = ''2024/APP/101'',
      form_court = ''High Court'', form_desc = [], form_status = ONGOING,
      form_nextDate = ''2024-02-15'', form_hearingNote = []\<rparr>"

definition example_backup :: DiaryData where
  "example_backup =
     example_data
       [(example_case ''c1'' ''State vs John Doe'')
          \<lparr>history := [\<lparr>hearing_id = ''h1'', date = ''2023-12-01'',
                         hearing_note = ''Adjourned''\<rparr>]\<rparr>]
       ''Counsel''"

fun join_lines :: "string list \<Rightarrow> string" where
  "join_lines [] = []"
| "join_lines [l] = l"
| "join_lines (l # ls) = l @ CHR 0x0A # join_lines ls"

text \<open>The text of \<^verbatim>\<open>JSON.stringify(example_backup, null, 2)\<close>, and a parser given by a
  table: it reads this text and \<^verbatim>\<open>{}\<close> and throws on every other text.\<close>

definition example_backup_text :: string where
  \<open>example_backup_text = join_lines
     [''{'',
      ''  "cases": ['',
      ''    {'',
      ''      "id": "c1",'',
      ''      "title": "State vs John Doe",'',
      ''      "referenceNumber": "2024/APP/101",'',
      ''      "courtName": "High Court",'',
      ''      "description": "",'',
      ''      "status": "Ongoing",'',
      ''      "nextHearingDate": "2024-01-10",'',
      ''      "history": ['',
      ''        {'',
      ''          "id": "h1",'',
      ''          "date": "2023-12-01",'',
      ''          "note": "Adjourned"'',
      ''        }'',
      ''      ],'',
      ''      "createdAt": "2024-01-01T09:00:00.000Z"'',
      ''    }'',
      ''  ],'',
      ''  "lastBackupDate": null,'',
      ''  "advocateName": "Counsel"'',
      ''}'']\<close>

definition example_parse :: "string \<Rightarrow> js_error + json" where
  "example_parse s =
     (if s = example_backup_text then Inr (json_of_DiaryData example_backup)
      else if s = ''{}'' then Inr (JObj [])
      else Inl SyntaxError)"

section \<open>The merge loop\<close>

lemma step_policy: "foldl executeImport_step result incoming = merge_policy result incoming"
  by (induction incoming arbitrary: result) (simp_all add: executeImport_step_def find_None_iff)

lemma merge_policy_prefix: "\<exists>ys. merge_policy result incoming = result @ ys"
proof (induction incoming arbitrary: result)
  case Nil
  show ?case by simp
next
  case (Cons c incoming)
  show ?case
  proof (cases "\<exists>x \<in> set result. case_id x = case_id c")
    case True
    with Cons.IH [of result] show ?thesis by simp
  next
    case False
    from Cons.IH [of "result @ [c]"] obtain ys where "merge_policy (result @ [c]) incoming = (result @ [c]) @ ys" by blast
    with False show ?thesis by simp
  qed
qed

lemma merge_policy_ids:
  "case_id ` set (merge_policy result incoming) = case_id ` set result \<union> case_id ` set incoming"
proof (induction incoming arbitrary: result)
  case Nil
  show ?case by simp
next
  case (Cons c incoming)
  show ?case
  proof (cases "\<exists>x \<in> set result. case_id x = case_id c")
    case True
    then have "case_id c \<in> case_id ` set result" by (metis imageI)
    with True Cons.IH [of result] show ?thesis by auto
  next
    case False
    with Cons.IH [of "result @ [c]"] show ?thesis by auto
  qed
qed

lemma merge_policy_covered:
  "case_id ` set incoming \<subseteq> case_id ` set result \<Longrightarrow> merge_policy result incoming = result"
  by (induction incoming arbitrary: result) auto

lemma merge_policy_idem: "merge_policy (merge_policy result incoming) incoming = merge_policy result incoming"
  by (rule merge_policy_covered) (simp add: merge_policy_ids)

lemma merge_policy_distinct:
  "distinct (map case_id result) \<Longrightarrow> distinct (map case_id (merge_policy result incoming))"
proof (induction incoming arbitrary: result)
  case Nil
  then show ?case by simp
next
  case (Cons c incoming)
  show ?case
  proof (cases "\<exists>x \<in> set result. case_id x = case_id c")
    case True
    with Cons show ?thesis by simp
  next
    case False
    with Cons.prems have "distinct (map case_id (result @ [c]))" by auto
    from Cons.IH [OF this] False show ?thesis by simp
  qed
qed

lemma merge_policy_count_present:
  "\<exists>y \<in> set result. case_id y = case_id c \<Longrightarrow>
   count_list (merge_policy result incoming) c = count_list result c"
proof (induction incoming arbitrary: result)
  case Nil
  show ?case by simp
next
  case (Cons x incoming)
  show ?case
  proof (cases "\<exists>y \<in> set result. case_id y = case_id x")
    case True
    with Cons show ?thesis by simp
  next
    case False
    with Cons.prems have "x \<noteq> c" by auto
    moreover from Cons.prems have "\<exists>y \<in> set (result @ [x]). case_id y = case_id c" by auto
    ultimately show ?thesis using False Cons.IH [of "result @ [x]"] by simp
  qed
qed

lemma merge_policy_count_first:
  "case_id c \<notin> case_id ` set result \<Longrightarrow>
   find (\<lambda>x. case_id x = case_id c) incoming = Some c \<Longrightarrow>
   count_list (merge_policy result incoming) c = 1"
proof (induction incoming arbitrary: result)
  case Nil
  then show ?case by simp
next
  case (Cons x incoming)
  show ?case
  proof (cases "case_id x = case_id c")
    case True
    with Cons.prems have xc: "x = c" by simp
    have notin: "c \<notin> set result" using Cons.prems(1) by auto
    have "count_list (merge_policy (result @ [c]) incoming) c = count_list (result @ [c]) c"
      by (rule merge_policy_count_present) simp
    with xc notin Cons.prems(1) show ?thesis by (auto simp: image_iff)
  next
    case False
    with Cons.prems have f: "find (\<lambda>x. case_id x = case_id c) incoming = Some c" by simp
    from False Cons.prems(1) have "case_id c \<notin> case_id ` set (result @ [x])" by auto
    from Cons.IH [OF this f] Cons.IH [OF Cons.prems(1) f] show ?thesis by simp
  qed
qed

lemma merge_policy_count_shadowed:
  "find (\<lambda>x. case_id x = case_id c) incoming = Some d \<Longrightarrow> d \<noteq> c \<Longrightarrow> c \<notin> set result \<Longrightarrow>
   count_list (merge_policy result incoming) c = 0"
proof (induction incoming arbitrary: result)
  case Nil
  then show ?case by simp
next
  case (Cons x incoming)
  show ?case
  proof (cases "case_id x = case_id c")
    case True
    with Cons.prems have xd: "x = d" by simp
    show ?thesis
    proof (cases "\<exists>y \<in> set result. case_id y = case_id x")
      case t: True
      then have "\<exists>y \<in> set result. case_id y = case_id c" using True by simp
      from merge_policy_count_present [OF this, of incoming] t Cons.prems(3) show ?thesis by simp
    next
      case f: False
      have "\<exists>y \<in> set (result @ [x]). case_id y = case_id c" using True by simp
      from merge_policy_count_present [OF this, of incoming] f xd Cons.prems show ?thesis by simp
    qed
  next
    case False
    with Cons.prems have f: "find (\<lambda>x. case_id x = case_id c) incoming = Some d" by simp
    from False have "x \<noteq> c" by auto
    with Cons.prems(3) have "c \<notin> set (result @ [x])" by simp
    from Cons.IH [OF f Cons.prems(2) this] Cons.IH [OF f Cons.prems(2) Cons.prems(3)] show ?thesis by simp
  qed
qed

section \<open>Updating a case in place\<close>

lemma findIndex_ge: "- 1 \<le> findIndex P xs"
  by (induction xs) (simp_all add: Let_def)

lemma findIndex_neg_iff: "findIndex P xs < 0 \<longleftrightarrow> (\<forall>x \<in> set xs. \<not> P x)"
proof (induction xs)
  case Nil
  show ?case by simp
next
  case (Cons x xs)
  have "- 1 \<le> findIndex P xs" by (rule findIndex_ge)
  with Cons show ?case by (auto simp: Let_def)
qed

lemma find_after_update:
  "P c \<Longrightarrow>
   find P (if findIndex P xs \<ge> 0 then xs[nat (findIndex P xs) := c] else c # xs) = Some c"
proof (induction xs)
  case Nil
  then show ?case by simp
next
  case (Cons x xs)
  show ?case
  proof (cases "P x")
    case True
    with Cons.prems show ?thesis by simp
  next
    case False
    show ?thesis
    proof (cases "findIndex P xs < 0")
      case True
      with False Cons.prems show ?thesis by (simp add: Let_def)
    next
      case nonneg: False
      then have eq: "nat (findIndex P xs + 1) = Suc (nat (findIndex P xs))" by simp
      from nonneg False Cons.IH [OF Cons.prems] show ?thesis
        by (simp add: Let_def eq)
    qed
  qed
qed

lemma ids_after_update:
  "findIndex (\<lambda>item. f item = f c) xs \<ge> 0 \<Longrightarrow>
   map f (xs[nat (findIndex (\<lambda>item. f item = f c) xs) := c]) = map f xs"
proof (induction xs)
  case Nil
  then show ?case by simp
next
  case (Cons x xs)
  show ?case
  proof (cases "f x = f c")
    case True
    then show ?thesis by simp
  next
    case False
    with Cons.prems have nonneg: "\<not> findIndex (\<lambda>item. f item = f c) xs < 0"
      by (simp add: Let_def split: if_splits)
    then have eq: "nat (findIndex (\<lambda>item. f item = f c) xs + 1) = Suc (nat (findIndex (\<lambda>item. f item = f c) xs))" by simp
    from nonneg False Cons.IH show ?thesis by (simp add: Let_def eq)
  qed
qed

lemma addOrUpdateCase_update_distinct:
  assumes "distinct (map case_id (cases prev))"
  shows "distinct (map case_id (cases (addOrUpdateCase_update c prev)))"
proof (cases "findIndex (\<lambda>item. case_id item = case_id c) (cases prev) \<ge> 0")
  case True
  with assms ids_after_update [of case_id c "cases prev"] show ?thesis
    by (simp add: addOrUpdateCase_update_def Let_def map_update del: map_update)
next
  case False
  then have "findIndex (\<lambda>item. case_id item = case_id c) (cases prev) < 0" by simp
  then have "\<forall>x \<in> set (cases prev). case_id x \<noteq> case_id c" by (simp add: findIndex_neg_iff)
  then have "case_id c \<notin> case_id ` set (cases prev)" by auto
  with False assms show ?thesis by (simp add: addOrUpdateCase_update_def Let_def)
qed

lemma addOrUpdateCase_update_find:
  "find (\<lambda>x. case_id x = case_id c) (cases (addOrUpdateCase_update c prev)) = Some c"
  using find_after_update [of "\<lambda>x. case_id x = case_id c" c "cases prev"]
  by (simp add: addOrUpdateCase_update_def Let_def)

section \<open>Reading back what was written\<close>

lemma CaseStatus_roundtrip: "CaseStatus_of_string (string_of_CaseStatus s) = Some s"
  by (cases s) (simp_all add: CaseStatus_of_string_def)

lemma Hearing_roundtrip: "Hearing_of_json (json_of_Hearing h) = Some h"
  by (simp add: json_of_Hearing_def)

lemma those_map_Some: "(\<And>x. f (g x) = Some x) \<Longrightarrow> those (map (f \<circ> g) xs) = Some xs"
  by (induction xs) simp_all

lemma LegalCase_roundtrip: "LegalCase_of_json (json_of_LegalCase c) = Some c"
  by (simp add: json_of_LegalCase_def CaseStatus_roundtrip those_map_Some [of Hearing_of_json json_of_Hearing] Hearing_roundtrip)

lemma DiaryData_roundtrip: "DiaryData_of_json (json_of_DiaryData d) = Some d"
  by (cases "lastBackupDate d") (simp_all add: json_of_DiaryData_def those_map_Some [of LegalCase_of_json json_of_LegalCase] LegalCase_roundtrip)


lemma digit_char_digit: "d < 10 \<Longrightarrow> is_digit (digit_char d)"
  by (simp add: is_digit_def digit_char_def)

lemma digit_char_val: "d < 10 \<Longrightarrow> digit_val (digit_char d) = d"
  by (simp add: digit_val_def digit_char_def)

lemma digits_all: "\<forall>c \<in> set (digits n). is_digit c"
proof (induction n rule: digits.induct)
  case (1 n)
  show ?case
  proof (cases "n < 10")
    case True
    then show ?thesis by (subst digits.simps) (simp add: digit_char_digit)
  next
    case False
    with 1 show ?thesis by (subst digits.simps) (simp add: digit_char_digit)
  qed
qed

lemma digits_nonempty: "digits n \<noteq> []"
  by (subst digits.simps) simp

lemma digits_value: "foldl (\<lambda>a c. 10 * a + digit_val c) 0 (digits n) = n"
proof (induction n rule: digits.induct)
  case (1 n)
  show ?case
  proof (cases "n < 10")
    case True
    then show ?thesis by (subst digits.simps) (simp add: digit_char_val)
  next
    case False
    with 1 show ?thesis by (subst digits.simps) (simp add: digit_char_val)
  qed
qed

lemma is_digit_not_space: "is_digit c \<Longrightarrow> \<not> is_space c"
  by (auto simp: is_digit_def is_space_def)

lemma is_digit_not_sign: "is_digit c \<Longrightarrow> c \<noteq> CHR ''-'' \<and> c \<noteq> CHR ''+''"
  by (auto simp: is_digit_def)

lemma parseInt10_digits: "parseInt10 (digits n) = Some (int n)"
proof -
  obtain c r where cr: "digits n = c # r" using digits_nonempty [of n] by (cases "digits n") auto
  have all: "\<forall>c \<in> set (digits n). is_digit c" by (rule digits_all)
  with cr have c: "is_digit c" by simp
  have tw: "takeWhile is_digit (digits n) = digits n" using all by (simp add: takeWhile_eq_all_conv)
  have dw: "dropWhile is_space (c # r) = c # r" using is_digit_not_space [OF c] by simp
  show ?thesis
    using is_digit_not_sign [OF c] tw digits_value [of n] digits_nonempty [of n] dw
    unfolding parseInt10_def cr [symmetric] Let_def
    by (simp add: cr)
qed

lemma parseInt10_minus_digits: "parseInt10 (CHR ''-'' # digits n) = Some (- int n)"
proof -
  have all: "\<forall>c \<in> set (digits n). is_digit c" by (rule digits_all)
  have tw: "takeWhile is_digit (digits n) = digits n" using all by (simp add: takeWhile_eq_all_conv)
  have sp: "\<not> is_space CHR ''-''" by (simp add: is_space_def)
  show ?thesis
    unfolding parseInt10_def Let_def
    by (simp add: tw digits_value digits_nonempty sp)
qed

lemma parseInt10_toString: "parseInt10 (toString_int n) = Some n"
  by (simp add: toString_int_def parseInt10_digits parseInt10_minus_digits)

section \<open>Reading back the JSON text that was written\<close>

lemma hex_val_hex_char: "d < 16 \<Longrightarrow> hex_val (hex_char d) = Some d"
proof -
  assume "d < 16"
  then have "d \<in> set [0..<16]" by simp
  moreover have "\<forall>d \<in> set [0..<16]. hex_val (hex_char d) = Some d" 
    by (simp add: upt_rec hex_val_def hex_char_def)
  ultimately show ?thesis by blast
qed

lemma parse_chars_u:
  "hex_val h1 = Some a \<Longrightarrow> hex_val h2 = Some b \<Longrightarrow> hex_val h3 = Some c \<Longrightarrow> hex_val h4 = Some d \<Longrightarrow>
   parse_chars (CHR 0x5C # CHR ''u'' # h1 # h2 # h3 # h4 # rest) =
     map_option (\<lambda>(s, t). (utf8 (((a * 16 + b) * 16 + c) * 16 + d) @ s, t)) (parse_chars rest)"
  by simp

lemma parse_chars_escape_control:
  assumes "(of_char c :: nat) < 32"
  shows "parse_chars (UnicodeEscape (of_char c) @ rest) =
           map_option (\<lambda>(s, t). (c # s, t)) (parse_chars rest)"
proof -
  let ?n = "of_char c :: nat"
  have a: "?n div 4096 mod 16 = 0" "?n div 256 mod 16 = 0" using assms by simp_all
  have b: "?n div 16 mod 16 < 16" "?n mod 16 < 16" by simp_all
  have v: "((0 * 16 + 0) * 16 + ?n div 16 mod 16) * 16 + ?n mod 16 = ?n" using assms by simp
  have u: "utf8 ?n = [c]" using assms by (simp add: utf8_def)
  have "parse_chars (UnicodeEscape ?n @ rest) =
     map_option (\<lambda>(s, t). (utf8 (((0 * 16 + 0) * 16 + ?n div 16 mod 16) * 16 + ?n mod 16) @ s, t)) (parse_chars rest)"
    unfolding UnicodeEscape_def a append_Cons append_Nil
    by (rule parse_chars_u) (simp_all add: hex_val_hex_char)
  then show ?thesis unfolding v u by simp
qed


lemma parse_chars_simple:
  "simple_escape e = Some x \<Longrightarrow> e \<noteq> CHR ''u'' \<Longrightarrow>
   parse_chars (CHR 0x5C # e # rest) = map_option (\<lambda>(s, t). (x # s, t)) (parse_chars rest)"
  by simp

lemma parse_chars_plain:
  "c \<noteq> CHR 0x22 \<Longrightarrow> c \<noteq> CHR 0x5C \<Longrightarrow> \<not> (of_char c :: nat) < 32 \<Longrightarrow>
   parse_chars (c # rest) = map_option (\<lambda>(s, t). (c # s, t)) (parse_chars rest)"
  by simp

lemma parse_chars_end: "parse_chars (CHR 0x22 # rest) = Some ([], rest)"
  by simp

lemma parse_chars_quote_char:
  "parse_chars (quote_char c @ rest) = map_option (\<lambda>(s, t). (c # s, t)) (parse_chars rest)"
proof -
  consider (special) "c \<in> {CHR 0x08, CHR 0x09, CHR 0x0A, CHR 0x0C, CHR 0x0D, CHR 0x22, CHR 0x5C}"
    | (control) "c \<notin> {CHR 0x08, CHR 0x09, CHR 0x0A, CHR 0x0C, CHR 0x0D, CHR 0x22, CHR 0x5C}"
        "(of_char c :: nat) < 32"
    | (plain) "c \<notin> {CHR 0x08, CHR 0x09, CHR 0x0A, CHR 0x0C, CHR 0x0D, CHR 0x22, CHR 0x5C}"
        "\<not> (of_char c :: nat) < 32"
    by blast
  then show ?thesis
  proof cases
    case special
    then show ?thesis
      by (auto simp add: quote_char_def parse_chars_simple simple_escape_def
          simp del: parse_chars.simps)
  next
    case control
    then have "quote_char c = UnicodeEscape (of_char c)" by (simp add: quote_char_def)
    with control parse_chars_escape_control [of c rest] show ?thesis by simp
  next
    case plain
    then have "quote_char c = [c]" by (simp add: quote_char_def)
    with plain parse_chars_plain [of c rest] show ?thesis by simp
  qed
qed

lemma parse_chars_body:
  "parse_chars (concat (map quote_char s) @ CHR 0x22 # rest) = Some (s, rest)"
  by (induction s) (simp_all add: parse_chars_quote_char parse_chars_end del: parse_chars.simps)

lemma parse_chars_QuoteJSONString:
  "\<exists>body. QuoteJSONString s = CHR 0x22 # body \<and> parse_chars (body @ rest) = Some (s, rest)"
  by (simp add: QuoteJSONString_def parse_chars_body del: parse_chars.simps)

lemma newline_indent_ws: "\<forall>c \<in> set (newline_indent g i). is_ws c"
  by (simp add: newline_indent_def is_ws_def)

lemma parse_value_skip:
  "\<forall>c \<in> set ws. is_ws c \<Longrightarrow> parse_value nv n (ws @ s) = parse_value nv n s"
  by (cases n) (simp_all add: dropWhile_append2)

lemma parse_members_skip:
  "\<forall>c \<in> set ws. is_ws c \<Longrightarrow> parse_members nv n (ws @ s) = parse_members nv n s"
  by (cases n) (simp_all add: dropWhile_append2)

lemma serialize_head:
  "plain v \<Longrightarrow> \<exists>c r. SerializeJSONProperty nt g i v = c # r \<and> \<not> is_ws c \<and> c \<noteq> CHR '']''"
  by (cases v) (auto simp: is_ws_def QuoteJSONString_def)

lemma join_Cons2: "ys \<noteq> [] \<Longrightarrow> join sep (x # ys) = x @ sep @ join sep ys"
  by (cases ys) simp_all

lemma roundtrip_elements:
  assumes item: "\<And>x n rest. x \<in> set xs \<Longrightarrow> length (f x) \<le> n \<Longrightarrow>
      parse_value nv n (f x @ rest) = Some (x, rest)"
    and sep: "\<forall>c \<in> set sep. is_ws c" and sep1: "\<forall>c \<in> set sep1. is_ws c"
    and ne: "xs \<noteq> []"
    and fuel: "length (join (CHR '','' # sep) (map f xs)) < n"
  shows "parse_elements nv n (sep @ join (CHR '','' # sep) (map f xs) @ sep1 @ CHR '']'' # rest)
           = Some (xs, rest)"
  using item ne fuel
proof (induction xs arbitrary: n)
  case Nil
  then show ?case by simp
next
  case (Cons x xs)
  from Cons.prems(3) obtain m where n: "n = Suc m" by (cases n) auto
  have comma: "\<not> is_ws (CHR '','')" and close: "\<not> is_ws (CHR '']'')" by (simp_all add: is_ws_def)
  show ?case
  proof (cases "xs = []")
    case True
    with Cons.prems(3) n have "length (f x) \<le> m" by simp
    then have "parse_value nv m (f x @ sep1 @ CHR '']'' # rest) = Some (x, sep1 @ CHR '']'' # rest)"
      using Cons.prems(1) by simp
    with True n sep sep1 close show ?thesis
      by (simp add: parse_value_skip dropWhile_append2)
  next
    case False
    let ?tail = "CHR '','' # sep @ join (CHR '','' # sep) (map f xs) @ sep1 @ CHR '']'' # rest"
    from False Cons.prems(3) n have fx: "length (f x) \<le> m"
      and rest: "length (join (CHR '','' # sep) (map f xs)) < m"
      by (simp_all add: join_Cons2)
    from fx have "parse_value nv m (f x @ ?tail) = Some (x, ?tail)"
      using Cons.prems(1) by simp
    moreover have "parse_elements nv m (sep @ join (CHR '','' # sep) (map f xs) @ sep1 @ CHR '']'' # rest)
        = Some (xs, rest)"
      using Cons.IH [OF _ False rest] Cons.prems(1) by simp
    ultimately show ?thesis
      using False n sep comma
      by (simp add: parse_value_skip join_Cons2)
  qed
qed

lemma roundtrip_members:
  assumes item: "\<And>p n rest. p \<in> set ps \<Longrightarrow> length (f (snd p)) \<le> n \<Longrightarrow>
      parse_value nv n (f (snd p) @ rest) = Some (snd p, rest)"
    and sep: "\<forall>c \<in> set sep. is_ws c" and sep1: "\<forall>c \<in> set sep1. is_ws c"
    and sp: "\<forall>c \<in> set sp. is_ws c"
    and ne: "ps \<noteq> []"
    and fuel: "length (join (CHR '','' # sep)
        (map (\<lambda>p. QuoteJSONString (fst p) @ CHR '':'' # sp @ f (snd p)) ps)) < n"
  shows "parse_members nv n
      (sep @ join (CHR '','' # sep) (map (\<lambda>p. QuoteJSONString (fst p) @ CHR '':'' # sp @ f (snd p)) ps)
         @ sep1 @ CHR ''}'' # rest) = Some (ps, rest)"
  using item ne fuel
proof (induction ps arbitrary: n)
  case Nil
  then show ?case by simp
next
  case (Cons p ps)
  let ?m = "\<lambda>p. QuoteJSONString (fst p) @ CHR '':'' # sp @ f (snd p)"
  from Cons.prems(3) obtain m where n: "n = Suc m" by (cases n) auto
  have comma: "\<not> is_ws (CHR '','')" and close: "\<not> is_ws (CHR ''}'')"
    and colon: "\<not> is_ws (CHR '':'')" and quote: "\<not> is_ws (CHR 0x22)"
    by (simp_all add: is_ws_def)
  have member: "parse_members nv (Suc m) (sep @ ?m p @ tail) =
      (case dropWhile is_ws tail of
         [] \<Rightarrow> None
       | c' # r4 \<Rightarrow>
           if c' = CHR '','' then
             map_option (\<lambda>(ms, t). ((fst p, snd p) # ms, t)) (parse_members nv m r4)
           else if c' = CHR ''}'' then Some ([(fst p, snd p)], r4)
           else None)"
    if "length (f (snd p)) \<le> m" for tail
  proof -
    obtain body where body: "QuoteJSONString (fst p) = CHR 0x22 # body"
      and chars: "parse_chars (body @ CHR '':'' # sp @ f (snd p) @ tail)
          = Some (fst p, CHR '':'' # sp @ f (snd p) @ tail)"
      using parse_chars_QuoteJSONString [of "fst p" "CHR '':'' # sp @ f (snd p) @ tail"] by blast
    have val: "parse_value nv m (sp @ f (snd p) @ tail) = Some (snd p, tail)"
      using Cons.prems(1) [of p m tail] that sp by (simp add: parse_value_skip)
    have "parse_members nv (Suc m) (sep @ ?m p @ tail) = parse_members nv (Suc m) (?m p @ tail)"
      using sep by (rule parse_members_skip)
    also have "\<dots> = (case dropWhile is_ws tail of
         [] \<Rightarrow> None
       | c' # r4 \<Rightarrow>
           if c' = CHR '','' then
             map_option (\<lambda>(ms, t). ((fst p, snd p) # ms, t)) (parse_members nv m r4)
           else if c' = CHR ''}'' then Some ([(fst p, snd p)], r4)
           else None)"
      using chars val quote colon by (simp add: body)
    finally show ?thesis .
  qed
  show ?case
  proof (cases "ps = []")
    case True
    with Cons.prems(3) n have "length (f (snd p)) \<le> m" by simp
    from member [OF this, of "sep1 @ CHR ''}'' # rest"] True n sep1 close show ?thesis
      by (simp add: dropWhile_append2)
  next
    case False
    from False Cons.prems(3) n have fx: "length (f (snd p)) \<le> m"
      and rest: "length (join (CHR '','' # sep) (map ?m ps)) < m"
      by (simp_all add: join_Cons2)
    have "parse_members nv m (sep @ join (CHR '','' # sep) (map ?m ps) @ sep1 @ CHR ''}'' # rest)
        = Some (ps, rest)"
      using Cons.IH [OF _ False rest] Cons.prems(1) by simp
    with member [OF fx, of "CHR '','' # sep @ join (CHR '','' # sep) (map ?m ps) @ sep1 @ CHR ''}'' # rest"]
      False n comma
    show ?thesis by (simp add: join_Cons2)
  qed
qed

lemma set_property_fresh:
  "distinct (map fst (acc @ ms)) \<Longrightarrow> foldl set_property acc ms = acc @ ms"
proof (induction ms arbitrary: acc)
  case Nil
  show ?case by simp
next
  case (Cons kv ms)
  from Cons.prems have "fst kv \<notin> fst ` set acc" by auto
  then have "set_property acc kv = acc @ [kv]" by (simp add: set_property_def)
  moreover from Cons.prems have "distinct (map fst ((acc @ [kv]) @ ms))" by simp
  ultimately show ?case using Cons.IH [of "acc @ [kv]"] by simp
qed

lemma roundtrip_value:
  "plain v \<Longrightarrow> length (SerializeJSONProperty nt g i v) \<le> n \<Longrightarrow>
   parse_value nv n (SerializeJSONProperty nt g i v @ rest) = Some (v, rest)"
proof (induction v arbitrary: n i rest)
  case JNull
  then obtain m where "n = Suc m" by (cases n) auto
  then show ?case by (simp add: is_ws_def)
next
  case (JBool b)
  then obtain m where "n = Suc m" by (cases n; cases b) auto
  then show ?case by (cases b) (simp_all add: is_ws_def)
next
  case (JNum x)
  then show ?case by simp
next
  case (JStr s)
  then obtain m where n: "n = Suc m" by (cases n) (auto simp: QuoteJSONString_def)
  obtain body where "QuoteJSONString s = CHR 0x22 # body"
    and "parse_chars (body @ rest) = Some (s, rest)"
    using parse_chars_QuoteJSONString [of s rest] by blast
  with n show ?case by (simp add: is_ws_def)
next
  case (JArr xs)
  show ?case
  proof (cases "xs = []")
    case True
    with JArr.prems obtain m where "n = Suc m" by (cases n) auto
    with True show ?thesis by (simp add: is_ws_def)
  next
    case False
    let ?f = "SerializeJSONProperty nt g (i + g)"
    let ?sep = "newline_indent g (i + g)" and ?sep1 = "newline_indent g i"
    let ?items = "join (CHR '','' # ?sep) (map ?f xs)"
    have shape: "SerializeJSONProperty nt g i (JArr xs) = CHR ''['' # ?sep @ ?items @ ?sep1 @ [CHR '']'']"
      using False by simp
    from JArr.prems(2) obtain m where n: "n = Suc m" and fuel: "length ?items < m"
      unfolding shape by (cases n) auto
    from JArr.prems(1) have pl: "\<And>x. x \<in> set xs \<Longrightarrow> plain x" by (simp add: list_all_iff)
    have item: "\<And>x n rest. x \<in> set xs \<Longrightarrow> length (?f x) \<le> n \<Longrightarrow>
        parse_value nv n (?f x @ rest) = Some (x, rest)"
      using JArr.IH pl by blast
    have elems: "parse_elements nv m (?sep @ ?items @ ?sep1 @ CHR '']'' # rest) = Some (xs, rest)"
      by (rule roundtrip_elements [OF item newline_indent_ws newline_indent_ws False fuel])
    obtain x ys where xs: "xs = x # ys" using False by (cases xs) auto
    obtain c r where head: "?f x = c # r" "\<not> is_ws c" "c \<noteq> CHR '']''"
      using serialize_head [OF pl, of x nt g "i + g"] xs by auto
    obtain t where items: "?items = c # t"
      using head(1) xs by (cases ys) simp_all
    have skip: "dropWhile is_ws (?sep @ ?items @ ?sep1 @ CHR '']'' # rest)
        = c # t @ ?sep1 @ CHR '']'' # rest"
      using head(2) newline_indent_ws [of g "i + g"] by (simp add: dropWhile_append2 items)
    have "parse_value nv (Suc m) (CHR ''['' # ?sep @ ?items @ ?sep1 @ CHR '']'' # rest)
        = Some (JArr xs, rest)"
      using skip head(3) elems by (simp add: is_ws_def)
    then show ?thesis unfolding shape n by simp
  qed
next
  case (JObj ps)
  show ?case
  proof (cases "ps = []")
    case True
    with JObj.prems obtain m where "n = Suc m" by (cases n) auto
    with True show ?thesis by (simp add: is_ws_def)
  next
    case False
    let ?f = "SerializeJSONProperty nt g (i + g)"
    let ?sp = "if g = 0 then [] else [CHR 0x20]"
    let ?mem = "\<lambda>p. QuoteJSONString (fst p) @ CHR '':'' # ?sp @ ?f (snd p)"
    let ?sep = "newline_indent g (i + g)" and ?sep1 = "newline_indent g i"
    let ?items = "join (CHR '','' # ?sep) (map ?mem ps)"
    have shape: "SerializeJSONProperty nt g i (JObj ps) = CHR ''{'' # ?sep @ ?items @ ?sep1 @ [CHR ''}'']"
      using False by simp
    from JObj.prems(2) obtain m where n: "n = Suc m" and fuel: "length ?items < m"
      unfolding shape by (cases n) auto
    from JObj.prems(1) have pl: "\<And>p. p \<in> set ps \<Longrightarrow> plain (snd p)"
      and dist: "distinct (map fst ps)" by (simp_all add: list_all_iff)
    have item: "\<And>p n rest. p \<in> set ps \<Longrightarrow> length (?f (snd p)) \<le> n \<Longrightarrow>
        parse_value nv n (?f (snd p) @ rest) = Some (snd p, rest)"
    proof -
      fix p :: "string \<times> json" and n rest
      assume p: "p \<in> set ps" and len: "length (?f (snd p)) \<le> n"
      have "snd p \<in> Basic_BNFs.snds p" by (cases p) simp
      from JObj.IH [OF p this pl [OF p] len] show "parse_value nv n (?f (snd p) @ rest) = Some (snd p, rest)" .
    qed
    have sp: "\<forall>c \<in> set ?sp. is_ws c" by (simp add: is_ws_def)
    have mems: "parse_members nv m (?sep @ ?items @ ?sep1 @ CHR ''}'' # rest) = Some (ps, rest)"
      by (rule roundtrip_members [OF item newline_indent_ws newline_indent_ws sp False fuel])
    obtain p qs where ps: "ps = p # qs" using False by (cases ps) auto
    obtain t where items: "?items = CHR 0x22 # t"
      using ps by (cases qs) (simp_all add: QuoteJSONString_def)
    have skip: "dropWhile is_ws (?sep @ ?items @ ?sep1 @ CHR ''}'' # rest)
        = CHR 0x22 # t @ ?sep1 @ CHR ''}'' # rest"
      using newline_indent_ws [of g "i + g"] by (simp add: dropWhile_append2 items is_ws_def)
    have "parse_value nv (Suc m) (CHR ''{'' # ?sep @ ?items @ ?sep1 @ CHR ''}'' # rest)
        = Some (JObj ps, rest)"
      using skip mems set_property_fresh [of "[]" ps] dist by (simp add: is_ws_def)
    then show ?thesis unfolding shape n by simp
  qed
qed

lemma JSON_parse_stringify:
  "plain v \<Longrightarrow> JSON_parse_text nv (JSON_stringify_text nt space v) = Inr v"
  using roundtrip_value [of v nt "min 10 space" 0 "Suc (length (JSON_stringify_text nt space v))" nv "[]"]
  by (simp add: JSON_parse_text_def JSON_stringify_text_def)

lemma plain_DiaryData: "plain (json_of_DiaryData d)"
  by (cases "lastBackupDate d")
    (simp_all add: json_of_DiaryData_def json_of_LegalCase_def json_of_Hearing_def list_all_iff)

section \<open>Auxiliary facts\<close>

lemma findIndex_found: "findIndex P xs \<ge> 0 \<longleftrightarrow> (\<exists>x \<in> set xs. P x)"
  using findIndex_neg_iff [of P xs] by auto

lemma toString_int_nonempty: "toString_int n \<noteq> []"
  by (simp add: toString_int_def digits_nonempty)

lemma shouldShow_after_mark:
  "shouldShowBackupReminder now (markBackupReminderAsShown t ls) = (now - t > 86400000)"
  by (simp add: shouldShowBackupReminder_def markBackupReminderAsShown_def
      toString_int_nonempty parseInt10_toString)

section \<open>The merge engine\<close>

text \<open>
  C1.  When an import is pending, the case list after \<^verbatim>\<open>executeImport\<close> is the merge policy
  applied to the current and the incoming cases: it starts as the current cases, and every
  incoming case, in order, is appended if no case of the result so far has its id and is
  skipped otherwise, so the local record wins.  In particular, for current cases \<open>[a]\<close> with
  id \<open>A\<close> and title \<open>Old\<close> and incoming cases \<open>[a', b]\<close> with ids \<open>A\<close> (title \<open>New\<close>) and
  \<open>B\<close>, the result is exactly \<open>[a, b]\<close>.
\<close>

theorem executeImport_merge_policy:
  assumes "pendingImportData st = Some incoming"
  shows "cases (data (executeImport st)) = merge_policy (cases (data st)) (cases incoming)
     \<and> take (length (cases (data st))) (cases (data (executeImport st))) = cases (data st)
     \<and> (cases (data st) = [a] \<and> case_id a = ''A'' \<and> title a = ''Old'' \<and>
        cases incoming = [a', b] \<and> case_id a' = ''A'' \<and> title a' = ''New'' \<and> case_id b = ''B''
        \<longrightarrow> cases (data (executeImport st)) = [a, b])"
proof -
  have eq: "cases (data (executeImport st)) = merge_policy (cases (data st)) (cases incoming)"
    using assms by (simp add: executeImport_def executeImport_update_def step_policy)
  obtain ys where "merge_policy (cases (data st)) (cases incoming) = cases (data st) @ ys"
    using merge_policy_prefix by blast
  then have pre: "take (length (cases (data st))) (merge_policy (cases (data st)) (cases incoming)) = cases (data st)"
    by simp
  show ?thesis unfolding eq using pre by simp
qed

theorem executeImport_merge_policy_witness:
  "cases (data (executeImport
      (example_state (example_data [example_case ''A'' ''Old''] ''Counsel'')
         (Some (example_data [example_case ''A'' ''New'', example_case ''B'' ''Second''] []))
         None)))
   = [example_case ''A'' ''Old'', example_case ''B'' ''Second'']"
  using executeImport_merge_policy
    [of "example_state (example_data [example_case ''A'' ''Old''] ''Counsel'')
           (Some (example_data [example_case ''A'' ''New'', example_case ''B'' ''Second''] [])) None"
        "example_data [example_case ''A'' ''New'', example_case ''B'' ''Second''] []"
        "example_case ''A'' ''Old''" "example_case ''A'' ''New''" "example_case ''B'' ''Second''"]
  by (simp add: example_state_def example_data_def example_case_def)

text \<open>
  C2.  When an import is pending, the current cases are the front of the merged list,
  unchanged and at their positions, so the list is at least as long as before; and an
  incoming case whose id is not among the current cases appears in the result exactly once
  when it is the first incoming case with its id, and not at all when an earlier, different
  incoming case has that id.
\<close>

theorem executeImport_additive:
  assumes "pendingImportData st = Some incoming"
  shows "take (length (cases (data st))) (cases (data (executeImport st))) = cases (data st)
     \<and> set (cases (data st)) \<subseteq> set (cases (data (executeImport st)))
     \<and> length (cases (data st)) \<le> length (cases (data (executeImport st)))
     \<and> (\<forall>c \<in> set (cases incoming). case_id c \<notin> case_id ` set (cases (data st)) \<longrightarrow>
          count_list (cases (data (executeImport st))) c =
            (if find (\<lambda>x. case_id x = case_id c) (cases incoming) = Some c then 1 else 0))"
proof -
  let ?cur = "cases (data st)" and ?inc = "cases incoming"
  have eq: "cases (data (executeImport st)) = merge_policy ?cur ?inc"
    using assms by (simp add: executeImport_def executeImport_update_def step_policy)
  obtain ys where ys: "merge_policy ?cur ?inc = ?cur @ ys"
    using merge_policy_prefix by blast
  have count: "count_list (merge_policy ?cur ?inc) c =
      (if find (\<lambda>x. case_id x = case_id c) ?inc = Some c then 1 else 0)"
    if c: "c \<in> set ?inc" and new: "case_id c \<notin> case_id ` set ?cur" for c
  proof (cases "find (\<lambda>x. case_id x = case_id c) ?inc")
    case None
    with c show ?thesis by (auto simp: find_None_iff)
  next
    case (Some d)
    show ?thesis
    proof (cases "d = c")
      case True
      with Some merge_policy_count_first [OF new] show ?thesis by simp
    next
      case False
      from new have "c \<notin> set ?cur" by auto
      from merge_policy_count_shadowed [OF Some False this] Some False show ?thesis by simp
    qed
  qed
  show ?thesis unfolding eq using ys count by simp
qed

theorem executeImport_additive_witness:
  "count_list (cases (data (executeImport
      (example_state (example_data [example_case ''A'' ''Old''] ''Counsel'')
         (Some (example_data [example_case ''A'' ''New'', example_case ''B'' ''Second''] []))
         None)))) (example_case ''B'' ''Second'') = 1"
  using executeImport_additive
    [of "example_state (example_data [example_case ''A'' ''Old''] ''Counsel'')
           (Some (example_data [example_case ''A'' ''New'', example_case ''B'' ''Second''] [])) None"
        "example_data [example_case ''A'' ''New'', example_case ''B'' ''Second''] []"]
  by (simp add: example_state_def example_data_def example_case_def)

text \<open>
  An import can carry two different cases with the same id.  The loop compares each
  incoming case with the list as it has grown, so the second of them is skipped although
  its id is not among the current cases: it does not appear in the result.
\<close>

theorem executeImport_duplicate_incoming_id:
  "example_case ''B'' ''Second'' \<in> set [example_case ''B'' ''First'', example_case ''B'' ''Second'']
   \<and> case_id (example_case ''B'' ''Second'') \<notin> case_id ` set (cases (example_data [] ''Counsel''))
   \<and> cases (data (executeImport
        (example_state (example_data [] ''Counsel'')
           (Some (example_data [example_case ''B'' ''First'', example_case ''B'' ''Second''] []))
           None))) = [example_case ''B'' ''First'']
   \<and> count_list (cases (data (executeImport
        (example_state (example_data [] ''Counsel'')
           (Some (example_data [example_case ''B'' ''First'', example_case ''B'' ''Second''] []))
           None)))) (example_case ''B'' ''Second'') = 0"
  by (simp add: example_state_def example_data_def example_case_def executeImport_def
      executeImport_update_def executeImport_step_def)

text \<open>
  C3.  Merging is idempotent: merging the same import into the result of a merge changes
  nothing, for the updater on datasets and for the handler on the application state when
  the same import is staged again.
\<close>

theorem executeImport_idempotent:
  "executeImport_update B (executeImport_update B A) = executeImport_update B A
   \<and> executeImport ((executeImport (st\<lparr>pendingImportData := Some C\<rparr>))\<lparr>pendingImportData := Some C\<rparr>)
       = executeImport (st\<lparr>pendingImportData := Some C\<rparr>)"
  by (simp add: executeImport_def executeImport_update_def Let_def step_policy merge_policy_idem js_or_def)

text \<open>
  C7.  The frame of the merge: the advocate name of the result is the incoming one when
  that is not empty and the current one otherwise; the backup date and every other
  property of the current dataset are those of the result.  (The interface declares the
  name as a string, so it is always present.)
\<close>

theorem executeImport_frame:
  "advocateName (executeImport_update incoming current) =
     (if advocateName incoming \<noteq> [] then advocateName incoming else advocateName current)
   \<and> lastBackupDate (executeImport_update incoming current) = lastBackupDate current
   \<and> DiaryData.more (executeImport_update incoming current) = DiaryData.more current"
  by (simp add: executeImport_update_def js_or_def)

section \<open>The store adapter and the backup codec\<close>

text \<open>
  What \<^verbatim>\<open>loadDiaryData\<close> does for every parser: it returns the default dataset (no cases,
  no backup date, advocate name \<open>Counsel\<close>) when nothing is stored and when \<^verbatim>\<open>JSON.parse\<close>
  throws on the stored text; a non-empty stored text that \<^verbatim>\<open>JSON.parse\<close> accepts is returned
  as parsed; no exception leaves the function.
\<close>

theorem loadDiaryData_fallback:
  "(ls STORAGE_KEY = None \<longrightarrow>
      loadDiaryData JSON_parse ls =
        Inr (json_of_DiaryData \<lparr>cases = [], lastBackupDate = None, advocateName = ''Counsel''\<rparr>))
   \<and> (ls STORAGE_KEY = Some stored \<and> JSON_parse stored = Inl e \<longrightarrow>
      loadDiaryData JSON_parse ls =
        Inr (json_of_DiaryData \<lparr>cases = [], lastBackupDate = None, advocateName = ''Counsel''\<rparr>))
   \<and> (ls STORAGE_KEY = Some stored \<and> stored \<noteq> [] \<and> JSON_parse stored = Inr v \<longrightarrow>
      loadDiaryData JSON_parse ls = Inr v)
   \<and> (\<exists>r. loadDiaryData JSON_parse ls = Inr r)
   \<and> DiaryData_of_json
        (json_of_DiaryData \<lparr>cases = [], lastBackupDate = None, advocateName = ''Counsel''\<rparr>)
      = Some \<lparr>cases = [], lastBackupDate = None, advocateName = ''Counsel''\<rparr>"
  by (simp add: loadDiaryData_def DiaryData_roundtrip split: option.splits sum.splits)

theorem loadDiaryData_fallback_witness:
  "loadDiaryData example_parse Map.empty =
     Inr (json_of_DiaryData \<lparr>cases = [], lastBackupDate = None, advocateName = ''Counsel''\<rparr>)
   \<and> example_parse ''{'' = Inl SyntaxError
   \<and> loadDiaryData example_parse [STORAGE_KEY \<mapsto> ''{''] =
     Inr (json_of_DiaryData \<lparr>cases = [], lastBackupDate = None, advocateName = ''Counsel''\<rparr>)"
proof -
  have p: "example_parse ''{'' = Inl SyntaxError"
    by (simp add: example_parse_def example_backup_text_def)
  from loadDiaryData_fallback [of Map.empty example_parse "''{''" SyntaxError]
    loadDiaryData_fallback [of "[STORAGE_KEY \<mapsto> ''{'']" example_parse "''{''" SyntaxError] p
  show ?thesis by simp
qed

text \<open>
  C4.  \<^verbatim>\<open>loadDiaryData\<close> is to return the default dataset for every stored text that does
  not parse as a dataset.  It does not for a stored text that is valid JSON of another
  shape: \<^verbatim>\<open>importFromJson\<close> checks the shape of what \<^verbatim>\<open>JSON.parse\<close> returns,
  \<^verbatim>\<open>loadDiaryData\<close> returns it as it is.  For the stored texts \<^verbatim>\<open>null\<close> and \<^verbatim>\<open>{}\<close> the
  result is \<^verbatim>\<open>null\<close> and the empty object, neither of which reads as a dataset or is the
  default dataset (the first reading of \<^verbatim>\<open>data.cases.length\<close> in \<^verbatim>\<open>App\<close> then throws).
\<close>

theorem loadDiaryData_not_a_dataset:
  "loadDiaryData (JSON_parse_text (\<lambda>s. Finite 0)) [STORAGE_KEY \<mapsto> ''null''] = Inr JNull
   \<and> DiaryData_of_json JNull = None
   \<and> JNull \<noteq> json_of_DiaryData \<lparr>cases = [], lastBackupDate = None, advocateName = ''Counsel''\<rparr>
   \<and> loadDiaryData (JSON_parse_text (\<lambda>s. Finite 0)) [STORAGE_KEY \<mapsto> ''{}''] = Inr (JObj [])
   \<and> DiaryData_of_json (JObj []) = None
   \<and> JObj [] \<noteq> json_of_DiaryData \<lparr>cases = [], lastBackupDate = None, advocateName = ''Counsel''\<rparr>"
proof -
  have a: "JSON_parse_text (\<lambda>s. Finite 0) ''null'' = Inr JNull" by code_simp
  have b: "JSON_parse_text (\<lambda>s. Finite 0) ''{}'' = Inr (JObj [])" by code_simp
  show ?thesis by (simp add: loadDiaryData_def a b json_of_DiaryData_def)
qed

text \<open>
  C5.  For every input text, \<^verbatim>\<open>importFromJson\<close> returns the parsed value exactly when
  \<^verbatim>\<open>JSON.parse\<close> succeeds with an object that has a property \<^verbatim>\<open>cases\<close> holding an array
  (the elements are not inspected); it returns \<^verbatim>\<open>null\<close> in every other case, a parse
  failure included; and no exception leaves the function.
\<close>

theorem importFromJson_shape:
  "(importFromJson JSON_parse jsonStr = Inr (Some d)) =
     (JSON_parse jsonStr = Inr d \<and> (\<exists>ps xs. d = JObj ps \<and> map_of ps ''cases'' = Some (JArr xs)))
   \<and> (importFromJson JSON_parse jsonStr = Inr None) =
     (\<not> (\<exists>ps xs. JSON_parse jsonStr = Inr (JObj ps) \<and> map_of ps ''cases'' = Some (JArr xs)))
   \<and> (\<exists>r. importFromJson JSON_parse jsonStr = Inr r)"
proof (cases "JSON_parse jsonStr")
  case (Inl e)
  then show ?thesis by (simp add: importFromJson_def importFromJson_try_def)
next
  case (Inr v)
  show ?thesis
  proof (cases v)
    case (JObj ps)
    show ?thesis
    proof (cases "map_of ps ''cases''")
      case None
      with Inr JObj show ?thesis by (auto simp add: importFromJson_def importFromJson_try_def)
    next
      case (Some w)
      with Inr JObj show ?thesis
        by (cases w) (auto simp add: importFromJson_def importFromJson_try_def)
    qed
  qed (use Inr in \<open>auto simp add: importFromJson_def importFromJson_try_def\<close>)
qed

theorem importFromJson_shape_witness:
  "importFromJson example_parse example_backup_text = Inr (Some (json_of_DiaryData example_backup))
   \<and> importFromJson example_parse ''{}'' = Inr None
   \<and> importFromJson example_parse ''{'' = Inr None"
proof -
  have a: "example_parse example_backup_text = Inr (json_of_DiaryData example_backup)"
    by (simp add: example_parse_def)
  have b: "example_parse ''{}'' = Inr (JObj [])"
    by (simp add: example_parse_def example_backup_text_def)
  have c: "example_parse ''{'' = Inl SyntaxError"
    by (simp add: example_parse_def example_backup_text_def)
  from importFromJson_shape [of example_parse example_backup_text "json_of_DiaryData example_backup"]
    importFromJson_shape [of example_parse "''{}''"]
    importFromJson_shape [of example_parse "''{''"] a b c
  show ?thesis by (simp add: json_of_DiaryData_def)
qed

text \<open>
  C6.  Export and import round trip.  For every dataset \<open>d\<close>, \<^verbatim>\<open>importFromJson\<close> of the
  text that \<^verbatim>\<open>exportToJson\<close> offers for download (\<^verbatim>\<open>JSON.stringify(data, null, 2)\<close>, written
  before the backup date is stamped) returns the object of \<open>d\<close>: the parser reads back
  every value that was written, the shape check accepts it, and read at the interface the
  object is \<open>d\<close> again field for field, the hearings of every case included.
\<close>

theorem export_import_roundtrip:
  "importFromJson (JSON_parse_text nv)
     (blob (fst (exportToJson (JSON_stringify_text nt) isoName isoStamp d ls)))
     = Inr (Some (json_of_DiaryData d))
   \<and> DiaryData_of_json (json_of_DiaryData d) = Some d"
proof -
  have "blob (fst (exportToJson (JSON_stringify_text nt) isoName isoStamp d ls))
      = JSON_stringify_text nt 2 (json_of_DiaryData d)"
    by (simp add: exportToJson_def Let_def)
  moreover have "JSON_parse_text nv (JSON_stringify_text nt 2 (json_of_DiaryData d))
      = Inr (json_of_DiaryData d)"
    by (rule JSON_parse_stringify [OF plain_DiaryData])
  moreover have "prop_cases (json_of_DiaryData d) = Inr (Some (JArr (map json_of_LegalCase (cases d))))"
    by (simp add: json_of_DiaryData_def)
  moreover have "truthy (json_of_DiaryData d)"
    by (simp add: json_of_DiaryData_def)
  ultimately show ?thesis
    by (simp add: importFromJson_def importFromJson_try_def DiaryData_roundtrip)
qed

theorem export_import_roundtrip_witness:
  "blob (fst (exportToJson (JSON_stringify_text (\<lambda>q. [])) ''2024-03-01T10:00:00.000Z''
      ''2024-03-01T10:00:00.001Z'' example_backup Map.empty)) = example_backup_text
   \<and> importFromJson (JSON_parse_text (\<lambda>s. Finite 0)) example_backup_text
       = Inr (Some (json_of_DiaryData example_backup))"
proof -
  have t: "blob (fst (exportToJson (JSON_stringify_text (\<lambda>q. [])) ''2024-03-01T10:00:00.000Z''
      ''2024-03-01T10:00:00.001Z'' example_backup Map.empty))
      = JSON_stringify_text (\<lambda>q. []) 2 (json_of_DiaryData example_backup)"
    by (simp add: exportToJson_def Let_def)
  have p: "JSON_stringify_text (\<lambda>q. []) 2 (json_of_DiaryData example_backup) = example_backup_text"
    by code_simp
  from export_import_roundtrip [of "\<lambda>s. Finite 0" "\<lambda>q. []" "''2024-03-01T10:00:00.000Z''"
      "''2024-03-01T10:00:00.001Z''" example_backup Map.empty]
  show ?thesis by (simp add: t p)
qed

section \<open>The reminder gate\<close>

text \<open>
  C8.  \<^verbatim>\<open>shouldShowBackupReminder\<close> is true when no time stamp is stored; after
  \<^verbatim>\<open>markBackupReminderAsShown\<close> at the time \<open>t\<close> it is true at the time \<open>now\<close> exactly when
  \<open>now - t\<close> exceeds \<open>86400000\<close> milliseconds: false 23 hours 59 minutes after \<open>t\<close>, true 24
  hours and one second after \<open>t\<close>.
\<close>

theorem reminder_threshold:
  "(ls BACKUP_REMINDER_KEY = None \<longrightarrow> shouldShowBackupReminder now ls)
   \<and> shouldShowBackupReminder now (markBackupReminderAsShown t ls) = (now - t > 86400000)
   \<and> \<not> shouldShowBackupReminder (t + (23 * 60 + 59) * 60 * 1000) (markBackupReminderAsShown t ls)
   \<and> shouldShowBackupReminder (t + ((24 * 60 + 0) * 60 + 1) * 1000) (markBackupReminderAsShown t ls)"
  by (simp add: shouldShow_after_mark) (simp add: shouldShowBackupReminder_def)

theorem reminder_threshold_witness:
  "shouldShowBackupReminder 1700000000000 Map.empty
   \<and> markBackupReminderAsShown 1700000000000 Map.empty BACKUP_REMINDER_KEY = Some ''1700000000000''
   \<and> \<not> shouldShowBackupReminder 1700086340000 (markBackupReminderAsShown 1700000000000 Map.empty)
   \<and> shouldShowBackupReminder 1700086401000 (markBackupReminderAsShown 1700000000000 Map.empty)"
proof -
  have d: "markBackupReminderAsShown 1700000000000 Map.empty BACKUP_REMINDER_KEY = Some ''1700000000000''"
    by (simp add: markBackupReminderAsShown_def toString_int_def digits.simps digit_char_def
        char_of_def bit_Suc_0_iff)
  from reminder_threshold [of Map.empty 1700000000000 1700000000000]
    reminder_threshold [of Map.empty 1700086340000 1700000000000]
    reminder_threshold [of Map.empty 1700086401000 1700000000000] d
  show ?thesis by simp
qed

section \<open>Editing cases\<close>

text \<open>
  Rescheduling for a case whose id is not empty.  For a case with next hearing date
  \<open>2024-01-10\<close> and empty history, submitting the form with next hearing date \<open>2024-02-15\<close>
  (and the title and the court filled in, without which nothing is saved) saves a case whose
  history is the old history followed by exactly one hearing, dated \<open>2024-01-10\<close>, and
  whose next hearing date is \<open>2024-02-15\<close>.  The saved case keeps the id of the edited one
  when that is not empty, and after \<^verbatim>\<open>addOrUpdateCase\<close> it is the case found under its id.
\<close>

theorem reschedule_creates_history:
  assumes "nextHearingDate c = ''2024-01-10''" and "history c = []"
    and "form_nextDate form = ''2024-02-15''"
    and "form_title form \<noteq> []" and "form_court form \<noteq> []"
  shows "\<exists>h c'. handleSubmit_case toLocaleDateString randomUUID nowISO (Some c) form = Some c'
      \<and> handleSubmit toLocaleDateString randomUUID nowISO (Some c) addOrUpdateCase form st
          = addOrUpdateCase c' st
      \<and> history c' = history c @ [h] \<and> history c' = [h]
      \<and> date h = ''2024-01-10''
      \<and> nextHearingDate c' = ''2024-02-15''
      \<and> (case_id c \<noteq> [] \<longrightarrow> case_id c' = case_id c)
      \<and> find (\<lambda>x. case_id x = case_id c') (cases (data (addOrUpdateCase c' st))) = Some c'"
proof -
  obtain c' where c': "handleSubmit_case toLocaleDateString randomUUID nowISO (Some c) form = Some c'"
    using assms by (simp add: handleSubmit_case_def Let_def)
  let ?h = "\<lparr>hearing_id = randomUUID 0, date = nextHearingDate c,
             hearing_note = js_or (form_hearingNote form)
               (''Hearing rescheduled to '' @ formatDate toLocaleDateString (form_nextDate form))\<rparr>"
  from c' assms have hist: "history c' = history c @ [?h]"
    by (auto simp add: handleSubmit_case_def Let_def)
  from c' assms have nxt: "nextHearingDate c' = ''2024-02-15''"
    by (auto simp add: handleSubmit_case_def Let_def)
  from c' assms have ident: "case_id c \<noteq> [] \<longrightarrow> case_id c' = case_id c"
    by (auto simp add: handleSubmit_case_def Let_def js_or_def)
  have sub: "handleSubmit toLocaleDateString randomUUID nowISO (Some c) addOrUpdateCase form st
          = addOrUpdateCase c' st"
    by (simp add: handleSubmit_def c')
  have stored: "find (\<lambda>x. case_id x = case_id c') (cases (data (addOrUpdateCase c' st))) = Some c'"
    by (simp add: addOrUpdateCase_def addOrUpdateCase_update_find)
  from c' sub hist nxt ident stored assms(1,2) show ?thesis by auto
qed

theorem reschedule_creates_history_witness:
  "cases (data (handleSubmit (\<lambda>d. ''Feb 15, 2024'') (\<lambda>k. ''uuid-0'') ''2024-01-09T12:00:00.000Z''
      (Some (example_case ''A'' ''State vs John Doe'')) addOrUpdateCase example_form
      (example_state (example_data [example_case ''B'' ''Other'', example_case ''A'' ''State vs John Doe''] ''Counsel'') None None)))
   = [example_case ''B'' ''Other'',
      (example_case ''A'' ''State vs John Doe'')
        \<lparr>nextHearingDate := ''2024-02-15'',
         history := [\<lparr>hearing_id = ''uuid-0'', date = ''2024-01-10'',
                      hearing_note = ''Hearing rescheduled to Feb 15, 2024''\<rparr>]\<rparr>]"
  using reschedule_creates_history
    [of "example_case ''A'' ''State vs John Doe''" example_form "\<lambda>d. ''Feb 15, 2024''"
        "\<lambda>k. ''uuid-0''" "''2024-01-09T12:00:00.000Z''"
        "example_state (example_data [example_case ''B'' ''Other'', example_case ''A'' ''State vs John Doe''] ''Counsel'') None None"]
  by (simp add: example_case_def example_form_def example_state_def example_data_def
      handleSubmit_def handleSubmit_case_def addOrUpdateCase_def addOrUpdateCase_update_def
      js_or_def formatDate_def Let_def)

text \<open>
  C9.  Rescheduling is to add one hearing to the history of the edited case and to change
  its next hearing date, for every case.  For a case whose id is the empty string it does
  not: \<^verbatim>\<open>initialData?.id || crypto.randomUUID()\<close> takes the empty id for a missing one, the
  saved case gets a fresh id, \<^verbatim>\<open>addOrUpdateCase\<close> finds no case of that id and puts the
  saved case in front, and the edited case stays as it was, with next hearing date
  \<open>2024-01-10\<close> and empty history.
\<close>

theorem reschedule_empty_id:
  "cases (data (handleSubmit (\<lambda>d. ''Feb 15, 2024'') (\<lambda>k. if k = 0 then ''uuid-0'' else ''uuid-1'')
      ''2024-01-09T12:00:00.000Z''
      (Some (example_case [] ''State vs John Doe'')) addOrUpdateCase example_form
      (example_state (example_data [example_case [] ''State vs John Doe''] ''Counsel'') None None)))
   = [(example_case ''uuid-1'' ''State vs John Doe'')
        \<lparr>nextHearingDate := ''2024-02-15'',
         history := [\<lparr>hearing_id = ''uuid-0'', date = ''2024-01-10'',
                      hearing_note = ''Hearing rescheduled to Feb 15, 2024''\<rparr>]\<rparr>,
      example_case [] ''State vs John Doe'']
   \<and> nextHearingDate (example_case [] ''State vs John Doe'') = ''2024-01-10''
   \<and> history (example_case [] ''State vs John Doe'') = []"
  by (simp add: example_case_def example_form_def example_state_def example_data_def
      handleSubmit_def handleSubmit_case_def addOrUpdateCase_def addOrUpdateCase_update_def
      js_or_def formatDate_def Let_def)

text \<open>
  C10.  Uniqueness of ids is an invariant.  From a state whose case ids are pairwise
  distinct, each of \<^verbatim>\<open>addOrUpdateCase\<close> (which replaces in place when a case has the id, the
  ids staying as they are, and puts the case in front otherwise), \<^verbatim>\<open>confirmDelete\<close> (which
  keeps the cases whose id is not the deleted one), \<^verbatim>\<open>executeImport\<close> (the merge policy) and
  \<^verbatim>\<open>executePurge\<close> (which resets to the default dataset) leads to a state whose case ids are
  pairwise distinct.
\<close>

theorem id_uniqueness_preserved:
  assumes "distinct (map case_id (cases (data st)))"
  shows "distinct (map case_id (cases (data (addOrUpdateCase c st))))
     \<and> ((\<exists>x \<in> set (cases (data st)). case_id x = case_id c) \<longrightarrow>
          map case_id (cases (data (addOrUpdateCase c st))) = map case_id (cases (data st))
          \<and> c \<in> set (cases (data (addOrUpdateCase c st))))
     \<and> (\<not> (\<exists>x \<in> set (cases (data st)). case_id x = case_id c) \<longrightarrow>
          cases (data (addOrUpdateCase c st)) = c # cases (data st))
     \<and> distinct (map case_id (cases (data (confirmDelete st))))
     \<and> (\<forall>target. caseToDelete st = Some target \<longrightarrow>
          cases (data (confirmDelete st)) =
            filter (\<lambda>x. case_id x \<noteq> case_id target) (cases (data st)))
     \<and> distinct (map case_id (cases (data (executeImport st))))
     \<and> (\<forall>incoming. pendingImportData st = Some incoming \<longrightarrow>
          cases (data (executeImport st)) = merge_policy (cases (data st)) (cases incoming))
     \<and> distinct (map case_id (cases (data (executePurge st))))
     \<and> data (executePurge st) = \<lparr>cases = [], lastBackupDate = None, advocateName = ''Counsel''\<rparr>"
proof -
  let ?P = "\<lambda>item. case_id item = case_id c"
  have p1: "distinct (map case_id (cases (data (addOrUpdateCase c st))))"
    using addOrUpdateCase_update_distinct [OF assms] by (simp add: addOrUpdateCase_def)
  have p1a: "map case_id (cases (data (addOrUpdateCase c st))) = map case_id (cases (data st))
          \<and> c \<in> set (cases (data (addOrUpdateCase c st)))"
    if "\<exists>x \<in> set (cases (data st)). case_id x = case_id c"
  proof -
    from that have ge: "findIndex ?P (cases (data st)) \<ge> 0" by (simp add: findIndex_found)
    have "find ?P (cases (data (addOrUpdateCase c st))) = Some c"
      by (simp add: addOrUpdateCase_def addOrUpdateCase_update_find)
    then have "c \<in> set (cases (data (addOrUpdateCase c st)))"
      by (metis find_Some_iff nth_mem)
    with ge ids_after_update [of case_id c "cases (data st)"] show ?thesis
      by (simp add: addOrUpdateCase_def addOrUpdateCase_update_def Let_def del: map_update)
  qed
  have p1b: "cases (data (addOrUpdateCase c st)) = c # cases (data st)"
    if "\<not> (\<exists>x \<in> set (cases (data st)). case_id x = case_id c)"
  proof -
    from that have "\<not> findIndex ?P (cases (data st)) \<ge> 0" by (simp add: findIndex_found)
    then show ?thesis by (simp add: addOrUpdateCase_def addOrUpdateCase_update_def Let_def)
  qed
  have p2: "distinct (map case_id (cases (data (confirmDelete st))))"
    using assms by (simp add: confirmDelete_def distinct_map_filter split: option.splits)
  have p2a: "\<forall>target. caseToDelete st = Some target \<longrightarrow>
          cases (data (confirmDelete st)) =
            filter (\<lambda>x. case_id x \<noteq> case_id target) (cases (data st))"
    by (simp add: confirmDelete_def)
  have p3: "distinct (map case_id (cases (data (executeImport st))))"
    using assms merge_policy_distinct
    by (simp add: executeImport_def executeImport_update_def step_policy split: option.splits)
  have p3a: "\<forall>incoming. pendingImportData st = Some incoming \<longrightarrow>
          cases (data (executeImport st)) = merge_policy (cases (data st)) (cases incoming)"
    by (simp add: executeImport_def executeImport_update_def step_policy)
  have p4: "distinct (map case_id (cases (data (executePurge st))))"
    and p4a: "data (executePurge st) = \<lparr>cases = [], lastBackupDate = None, advocateName = ''Counsel''\<rparr>"
    by (simp_all add: executePurge_def)
  from p1 p1a p1b p2 p2a p3 p3a p4 p4a show ?thesis by blast
qed

theorem id_uniqueness_preserved_witness:
  "map case_id (cases (data (addOrUpdateCase (example_case ''B'' ''Renamed'')
      (example_state (example_data [example_case ''A'' ''Old'', example_case ''B'' ''Other''] ''Counsel'')
         (Some (example_data [example_case ''A'' ''New'', example_case ''C'' ''Third''] []))
         (Some (example_case ''A'' ''Old'')))))) = [''A'', ''B'']
   \<and> map case_id (cases (data (confirmDelete
      (example_state (example_data [example_case ''A'' ''Old'', example_case ''B'' ''Other''] ''Counsel'')
         (Some (example_data [example_case ''A'' ''New'', example_case ''C'' ''Third''] []))
         (Some (example_case ''A'' ''Old'')))))) = [''B'']
   \<and> map case_id (cases (data (executeImport
      (example_state (example_data [example_case ''A'' ''Old'', example_case ''B'' ''Other''] ''Counsel'')
         (Some (example_data [example_case ''A'' ''New'', example_case ''C'' ''Third''] []))
         (Some (example_case ''A'' ''Old'')))))) = [''A'', ''B'', ''C'']
   \<and> cases (data (executePurge
      (example_state (example_data [example_case ''A'' ''Old'', example_case ''B'' ''Other''] ''Counsel'')
         (Some (example_data [example_case ''A'' ''New'', example_case ''C'' ''Third''] []))
         (Some (example_case ''A'' ''Old''))))) = []"
  using id_uniqueness_preserved
    [of "example_state (example_data [example_case ''A'' ''Old'', example_case ''B'' ''Other''] ''Counsel'')
           (Some (example_data [example_case ''A'' ''New'', example_case ''C'' ''Third''] []))
           (Some (example_case ''A'' ''Old''))"
        "example_case ''B'' ''Renamed''"]
  by (simp add: example_state_def example_data_def example_case_def)

end
